theory Spec2Isabelle
  imports
    Complex_Main
    "HOL-Library.AList"
    "HOL-Library.Sublist"
    "HOL-Library.Char_ord"
    "HOL-Library.List_Lexorder"
    "HOL-Library.Product_Lexorder"
begin

section \<open>Data model\<close>

text \<open>
  An element of an Overpass JSON document is a JSON object that the converter reads
  through \<^verbatim>\<open>element.get(key)\<close> and \<^verbatim>\<open>key in element\<close>. It is modelled as a record
  of optional fields, \<open>None\<close> standing for an absent key. Strings are byte strings
  (UTF-8), whose lexicographic order and prefix relation agree with those of Python's
  code-point strings. JSON numbers are carried unchanged and never computed with; they
  are modelled as rationals. A Python dict whose iteration order matters is an
  association list with distinct keys.
\<close>

record element =
  elem_type :: "string option"
  elem_id :: "int option"
  lat :: "rat option"
  lon :: "rat option"
  nodes :: "int list option"
  tags :: "(string \<times> string) list option"

record document =
  elements :: "element list option"

datatype py_error = KeyError string | LoadError

text \<open>A scalar held by a row dict or a table cell; \<open>Null\<close> is Python's None and pandas' NaN.\<close>

datatype cell = Null | Num rat | Str string

type_synonym node_lookup = "int \<rightharpoonup> rat \<times> rat"

type_synonym row = "(string \<times> cell) list"

section \<open>convert\_to\_csv.py: per-element functions\<close>

text \<open>\<^verbatim>\<open>element.get('tags', {})\<close> and \<^verbatim>\<open>element.get('nodes', [])\<close>.\<close>

definition get_tags :: "element \<Rightarrow> (string \<times> string) list" where
  "get_tags e = (case tags e of None \<Rightarrow> [] | Some t \<Rightarrow> t)"

definition get_nodes :: "element \<Rightarrow> int list" where
  "get_nodes e = (case nodes e of None \<Rightarrow> [] | Some ns \<Rightarrow> ns)"

text \<open>
  \<^verbatim>\<open>lookup[element['id']] = (element['lat'], element['lon'])\<close> for every element of type
  node that has both coordinates; the subscript \<^verbatim>\<open>element['id']\<close> raises KeyError when
  the id is absent.
\<close>

fun create_node_lookup_loop :: "element list \<Rightarrow> node_lookup \<Rightarrow> py_error + node_lookup" where
  "create_node_lookup_loop [] lookup = Inr lookup"
| "create_node_lookup_loop (e # es) lookup =
     (case (elem_type e, lat e, lon e) of
        (Some ty, Some la, Some lo) \<Rightarrow>
          (if ty = ''node'' then
             (case elem_id e of
                None \<Rightarrow> Inl (KeyError ''id'')
              | Some i \<Rightarrow> create_node_lookup_loop es (lookup(i \<mapsto> (la, lo))))
           else create_node_lookup_loop es lookup)
      | _ \<Rightarrow> create_node_lookup_loop es lookup)"

definition create_node_lookup :: "element list \<Rightarrow> py_error + node_lookup" where
  "create_node_lookup es = create_node_lookup_loop es Map.empty"

definition meaningful_keys :: "string set" where
  "meaningful_keys = {''name'', ''amenity'', ''shop'', ''building'', ''leisure'', ''religion'',
     ''phone'', ''website'', ''addr:housenumber'', ''addr:street'', ''addr:city'', ''email'',
     ''opening_hours''}"

definition noise_prefixes :: "string list" where
  "noise_prefixes = [''source'', ''gnis'', ''wikidata'', ''wikipedia'', ''note'', ''fixme'']"

text \<open>\<^verbatim>\<open>s.startswith(p)\<close> and \<^verbatim>\<open>s.startswith((p1, ..., pn))\<close>.\<close>

definition startswith :: "string \<Rightarrow> string \<Rightarrow> bool" where
  "startswith s p = prefix p s"

definition startswith_any :: "string \<Rightarrow> string list \<Rightarrow> bool" where
  "startswith_any s ps = list_ex (startswith s) ps"

text \<open>The loop over \<^verbatim>\<open>tags.keys()\<close>, returning at the first meaningful key.\<close>

fun meaningful_loop :: "string list \<Rightarrow> bool" where
  "meaningful_loop [] = False"
| "meaningful_loop (key # keys) =
     (if key \<in> meaningful_keys \<or> \<not> startswith_any key noise_prefixes then True
      else meaningful_loop keys)"

definition should_include_element :: "element \<Rightarrow> node_lookup \<Rightarrow> bool" where
  "should_include_element e node_lookup =
     (let tgs = get_tags e in
      if tgs = [] then False else meaningful_loop (map fst tgs))"

definition get_element_coordinates :: "element \<Rightarrow> node_lookup \<Rightarrow> rat option \<times> rat option" where
  "get_element_coordinates e node_lookup =
     (if elem_type e = Some ''node'' then (lat e, lon e)
      else if elem_type e = Some ''way'' then
        (case get_nodes e of
           [] \<Rightarrow> (None, None)
         | n # _ \<Rightarrow>
             (case node_lookup n of
                None \<Rightarrow> (None, None)
              | Some lat_lon \<Rightarrow> (Some (fst lat_lon), Some (snd lat_lon))))
      else (None, None))"

definition num_cell :: "rat option \<Rightarrow> cell" where
  "num_cell x = (case x of None \<Rightarrow> Null | Some q \<Rightarrow> Num q)"

definition str_cell :: "string option \<Rightarrow> cell" where
  "str_cell x = (case x of None \<Rightarrow> Null | Some s \<Rightarrow> Str s)"

text \<open>\<^verbatim>\<open>for key, value in tags.items(): data_row[key] = value\<close>.\<close>

fun add_tags :: "(string \<times> string) list \<Rightarrow> row \<Rightarrow> row" where
  "add_tags [] data_row = data_row"
| "add_tags ((key, val) # rest) data_row = add_tags rest (AList.update key (Str val) data_row)"

definition extract_element_data :: "element \<Rightarrow> node_lookup \<Rightarrow> string \<Rightarrow> string \<Rightarrow> row" where
  "extract_element_data e node_lookup query_purpose query_county =
     (let (la, lo) = get_element_coordinates e node_lookup;
          data_row = [(''latitude'', num_cell la),
                      (''longitude'', num_cell lo),
                      (''query_purpose'', Str query_purpose),
                      (''query_county'', Str query_county),
                      (''osm_id'', num_cell (map_option of_int (elem_id e))),
                      (''osm_type'', str_cell (elem_type e))]
      in add_tags (get_tags e) data_row)"

text \<open>
  The argument is the outcome of opening and parsing the file. Any exception raised in
  the body is caught and the file contributes no row.
\<close>

definition process_json_file :: "py_error + document \<Rightarrow> string \<Rightarrow> string \<Rightarrow> row list" where
  "process_json_file loaded query_purpose query_county =
     (case loaded of
        Inl _ \<Rightarrow> []
      | Inr data \<Rightarrow>
          (let els = (case elements data of None \<Rightarrow> [] | Some es \<Rightarrow> es) in
           case create_node_lookup els of
             Inl _ \<Rightarrow> []
           | Inr node_lookup \<Rightarrow>
               map (\<lambda>e. extract_element_data e node_lookup query_purpose query_county)
                 (filter (\<lambda>e. should_include_element e node_lookup) els)))"

text \<open>The value a row dict holds under a column name; a missing key reads as null.\<close>

definition cell_at :: "row \<Rightarrow> string \<Rightarrow> cell" where
  "cell_at r c = (case map_of r c of None \<Rightarrow> Null | Some v \<Rightarrow> v)"

section \<open>Inclusion filter\<close>

lemma meaningful_loop_iff:
  "meaningful_loop ks \<longleftrightarrow>
     (\<exists>k \<in> set ks. k \<in> meaningful_keys \<or> \<not> startswith_any k noise_prefixes)"
  by (induction ks) auto


text \<open>
  C1. \<open>should_include_element\<close> is false on an empty tag mapping; otherwise it is
  true exactly when some tag key is in the allow-set or starts with none of the noise
  prefixes. Equivalently, an element is excluded exactly when every tag key is outside
  the allow-set and starts with a noise prefix.
\<close>

theorem should_include_element_characterisation:
  "((tags e = None \<or> tags e = Some []) \<longrightarrow> \<not> should_include_element e node_lookup) \<and>
   (should_include_element e node_lookup \<longleftrightarrow>
      get_tags e \<noteq> [] \<and>
      (\<exists>k \<in> fst ` set (get_tags e).
         k \<in> {''name'', ''amenity'', ''shop'', ''building'', ''leisure'', ''religion'',
              ''phone'', ''website'', ''addr:housenumber'', ''addr:street'', ''addr:city'',
              ''email'', ''opening_hours''} \<or>
         \<not> (\<exists>p \<in> {''source'', ''gnis'', ''wikidata'', ''wikipedia'', ''note'', ''fixme''}.
              prefix p k))) \<and>
   (\<not> should_include_element e node_lookup \<longleftrightarrow>
      (\<forall>k \<in> fst ` set (get_tags e).
         k \<notin> {''name'', ''amenity'', ''shop'', ''building'', ''leisure'', ''religion'',
              ''phone'', ''website'', ''addr:housenumber'', ''addr:street'', ''addr:city'',
              ''email'', ''opening_hours''} \<and>
         (\<exists>p \<in> {''source'', ''gnis'', ''wikidata'', ''wikipedia'', ''note'', ''fixme''}.
            prefix p k)))"
proof -
  have keys: "meaningful_keys = {''name'', ''amenity'', ''shop'', ''building'', ''leisure'',
      ''religion'', ''phone'', ''website'', ''addr:housenumber'', ''addr:street'',
      ''addr:city'', ''email'', ''opening_hours''}"
    by (simp add: meaningful_keys_def)
  have noise: "startswith_any k noise_prefixes \<longleftrightarrow>
      (\<exists>p \<in> {''source'', ''gnis'', ''wikidata'', ''wikipedia'', ''note'', ''fixme''}. prefix p k)"
    for k
    unfolding startswith_any_def noise_prefixes_def startswith_def list_ex_iff by simp
  have incl: "should_include_element e node_lookup \<longleftrightarrow>
      get_tags e \<noteq> [] \<and>
      (\<exists>k \<in> fst ` set (get_tags e). k \<in> meaningful_keys \<or> \<not> startswith_any k noise_prefixes)"
    by (simp add: should_include_element_def Let_def meaningful_loop_iff)
  have empty: "get_tags e = []" if "tags e = None \<or> tags e = Some []"
    using that by (auto simp: get_tags_def)
  have vac: "get_tags e = [] \<Longrightarrow> fst ` set (get_tags e) = {}"
    by simp
  show ?thesis
    unfolding incl keys noise using empty by fastforce
qed

theorem should_include_element_characterisation_witness:
  "should_include_element
     \<lparr>elem_type = Some ''node'', elem_id = Some 1, lat = Some 1, lon = Some 2, nodes = None,
      tags = Some [(''source'', ''survey''), (''amenity'', ''theatre'')]\<rparr> Map.empty \<and>
   \<not> should_include_element
     \<lparr>elem_type = Some ''node'', elem_id = Some 2, lat = Some 3, lon = Some 4, nodes = None,
      tags = Some [(''source'', ''survey''), (''wikidata'', ''Q1'')]\<rparr> Map.empty \<and>
   \<not> should_include_element
     \<lparr>elem_type = Some ''node'', elem_id = Some 3, lat = Some 3, lon = Some 4, nodes = None,
      tags = Some []\<rparr> Map.empty"
  using
    should_include_element_characterisation
      [of "\<lparr>elem_type = Some ''node'', elem_id = Some 1, lat = Some 1, lon = Some 2,
            nodes = None, tags = Some [(''source'', ''survey''), (''amenity'', ''theatre'')]\<rparr>"
          Map.empty]
    should_include_element_characterisation
      [of "\<lparr>elem_type = Some ''node'', elem_id = Some 2, lat = Some 3, lon = Some 4,
            nodes = None, tags = Some [(''source'', ''survey''), (''wikidata'', ''Q1'')]\<rparr>"
          Map.empty]
    should_include_element_characterisation
      [of "\<lparr>elem_type = Some ''node'', elem_id = Some 3, lat = Some 3, lon = Some 4,
            nodes = None, tags = Some []\<rparr>"
          Map.empty]
  by (simp add: get_tags_def)

text \<open>
  C10. The decision of \<open>should_include_element\<close> depends only on the set of tag keys:
  the node lookup is ignored, and two elements with the same set of tag keys get the
  same decision whatever their tag values, coordinates, id or type.
\<close>

theorem should_include_element_depends_on_keys_only:
  "should_include_element e nl1 = should_include_element e nl2 \<and>
   (fst ` set (get_tags e1) = fst ` set (get_tags e2) \<longrightarrow>
      should_include_element e1 nl1 = should_include_element e2 nl2)"
proof -
  have incl: "should_include_element x nl \<longleftrightarrow>
      (\<exists>k \<in> fst ` set (get_tags x). k \<in> meaningful_keys \<or> \<not> startswith_any k noise_prefixes)"
    for x nl
    by (cases "get_tags x = []") (simp_all add: should_include_element_def Let_def meaningful_loop_iff)
  show ?thesis
    unfolding incl by simp
qed

theorem should_include_element_depends_on_keys_only_witness:
  "should_include_element
     \<lparr>elem_type = Some ''node'', elem_id = Some 1, lat = Some 1, lon = Some 2, nodes = None,
      tags = Some [(''shop'', ''books''), (''note'', ''a'')]\<rparr> Map.empty =
   should_include_element
     \<lparr>elem_type = Some ''way'', elem_id = Some 7, lat = None, lon = None, nodes = Some [5, 6],
      tags = Some [(''note'', ''b''), (''shop'', ''bicycle''), (''note'', ''c'')]\<rparr>
     [5 \<mapsto> (3, 4)]"
proof -
  let ?a = "\<lparr>elem_type = Some ''node'', elem_id = Some 1, lat = Some 1, lon = Some 2,
      nodes = None, tags = Some [(''shop'', ''books''), (''note'', ''a'')]\<rparr>"
  let ?b = "\<lparr>elem_type = Some ''way'', elem_id = Some 7, lat = None, lon = None,
      nodes = Some [5, 6],
      tags = Some [(''note'', ''b''), (''shop'', ''bicycle''), (''note'', ''c'')]\<rparr>"
  have keys: "fst ` set (get_tags ?a) = fst ` set (get_tags ?b)"
    by (auto simp: get_tags_def)
  from should_include_element_depends_on_keys_only [of ?a Map.empty "[5 \<mapsto> (3, 4)]" ?a ?b]
  have "fst ` set (get_tags ?a) = fst ` set (get_tags ?b) \<longrightarrow>
      should_include_element ?a Map.empty = should_include_element ?b [5 \<mapsto> (3, 4)]"
    by (rule conjunct2)
  with keys show ?thesis by (rule rev_mp)
qed

section \<open>Coordinate resolution\<close>

text \<open>
  C2. \<open>get_element_coordinates\<close> returns, for a node, its own lat and lon, each null
  when absent; for a way, the coordinates the node lookup holds for the first identifier
  of its node sequence, and null/null when the sequence is absent or empty or the lookup
  misses; and null/null for any other type, an absent type included.
\<close>

theorem get_element_coordinates_cases:
  "(elem_type e = Some ''node'' \<longrightarrow> get_element_coordinates e nl = (lat e, lon e)) \<and>
   (elem_type e = Some ''way'' \<longrightarrow>
      (\<forall>n ns la lo. nodes e = Some (n # ns) \<and> nl n = Some (la, lo) \<longrightarrow>
         get_element_coordinates e nl = (Some la, Some lo)) \<and>
      (\<forall>n ns. nodes e = Some (n # ns) \<and> nl n = None \<longrightarrow>
         get_element_coordinates e nl = (None, None)) \<and>
      (nodes e = None \<or> nodes e = Some [] \<longrightarrow> get_element_coordinates e nl = (None, None))) \<and>
   (elem_type e \<noteq> Some ''node'' \<and> elem_type e \<noteq> Some ''way'' \<longrightarrow>
      get_element_coordinates e nl = (None, None))"
  by (auto simp: get_element_coordinates_def get_nodes_def)

theorem get_element_coordinates_cases_witness:
  "get_element_coordinates
     \<lparr>elem_type = Some ''node'', elem_id = Some 1, lat = Some 1, lon = Some 2, nodes = None,
      tags = None\<rparr> [5 \<mapsto> (3, 4)] = (Some 1, Some 2) \<and>
   get_element_coordinates
     \<lparr>elem_type = Some ''node'', elem_id = Some 1, lat = None, lon = None, nodes = None,
      tags = None\<rparr> [5 \<mapsto> (3, 4)] = (None, None) \<and>
   get_element_coordinates
     \<lparr>elem_type = Some ''way'', elem_id = Some 7, lat = None, lon = None, nodes = Some [5, 6],
      tags = None\<rparr> [5 \<mapsto> (3, 4)] = (Some 3, Some 4) \<and>
   get_element_coordinates
     \<lparr>elem_type = Some ''way'', elem_id = Some 7, lat = None, lon = None, nodes = Some [6, 5],
      tags = None\<rparr> [5 \<mapsto> (3, 4)] = (None, None) \<and>
   get_element_coordinates
     \<lparr>elem_type = Some ''way'', elem_id = Some 7, lat = None, lon = None, nodes = Some [],
      tags = None\<rparr> [5 \<mapsto> (3, 4)] = (None, None) \<and>
   get_element_coordinates
     \<lparr>elem_type = Some ''relation'', elem_id = Some 9, lat = Some 1, lon = Some 2,
      nodes = Some [5], tags = None\<rparr> [5 \<mapsto> (3, 4)] = (None, None)"
  using
    get_element_coordinates_cases
      [of "\<lparr>elem_type = Some ''node'', elem_id = Some 1, lat = Some 1, lon = Some 2,
            nodes = None, tags = None\<rparr>" "[5 \<mapsto> (3, 4)]"]
    get_element_coordinates_cases
      [of "\<lparr>elem_type = Some ''node'', elem_id = Some 1, lat = None, lon = None,
            nodes = None, tags = None\<rparr>" "[5 \<mapsto> (3, 4)]"]
    get_element_coordinates_cases
      [of "\<lparr>elem_type = Some ''way'', elem_id = Some 7, lat = None, lon = None,
            nodes = Some [5, 6], tags = None\<rparr>" "[5 \<mapsto> (3, 4)]"]
    get_element_coordinates_cases
      [of "\<lparr>elem_type = Some ''way'', elem_id = Some 7, lat = None, lon = None,
            nodes = Some [6, 5], tags = None\<rparr>" "[5 \<mapsto> (3, 4)]"]
    get_element_coordinates_cases
      [of "\<lparr>elem_type = Some ''way'', elem_id = Some 7, lat = None, lon = None,
            nodes = Some [], tags = None\<rparr>" "[5 \<mapsto> (3, 4)]"]
    get_element_coordinates_cases
      [of "\<lparr>elem_type = Some ''relation'', elem_id = Some 9, lat = Some 1, lon = Some 2,
            nodes = Some [5], tags = None\<rparr>" "[5 \<mapsto> (3, 4)]"]
  by simp

section \<open>Row extraction\<close>

lemma map_of_add_tags:
  "distinct (map fst ts) \<Longrightarrow>
   map_of (add_tags ts r) k =
     (case map_of ts k of None \<Rightarrow> map_of r k | Some v \<Rightarrow> Some (Str v))"
proof (induction ts arbitrary: r)
  case Nil
  then show ?case by simp
next
  case (Cons t ts)
  obtain key val where t: "t = (key, val)" by (cases t)
  from Cons.prems t have notin: "map_of ts key = None" and dist: "distinct (map fst ts)"
    by (auto simp: map_of_eq_None_iff)
  show ?case
    using Cons.IH [OF dist, of "AList.update key (Str val) r"] notin
    by (auto simp: t update_conv' split: option.splits)
qed

lemma cell_at_extract_tag:
  assumes "distinct (map fst (get_tags e))" and "(k, v) \<in> set (get_tags e)"
  shows "cell_at (extract_element_data e nl purpose county) k = Str v"
proof -
  from assms have "map_of (get_tags e) k = Some v" by simp
  with assms(1) show ?thesis
    by (simp add: cell_at_def extract_element_data_def map_of_add_tags split: prod.splits)
qed

lemma extract_element_data_unfold:
  "extract_element_data e nl purpose county =
     add_tags (get_tags e)
       [(''latitude'', num_cell (fst (get_element_coordinates e nl))),
        (''longitude'', num_cell (snd (get_element_coordinates e nl))),
        (''query_purpose'', Str purpose),
        (''query_county'', Str county),
        (''osm_id'', num_cell (map_option of_int (elem_id e))),
        (''osm_type'', str_cell (elem_type e))]"
  by (simp add: extract_element_data_def split: prod.splits)

lemma cell_at_extract_no_tag:
  assumes "distinct (map fst (get_tags e))" and "k \<notin> fst ` set (get_tags e)"
  shows "cell_at (extract_element_data e nl purpose county) k =
     cell_at [(''latitude'', num_cell (fst (get_element_coordinates e nl))),
              (''longitude'', num_cell (snd (get_element_coordinates e nl))),
              (''query_purpose'', Str purpose),
              (''query_county'', Str county),
              (''osm_id'', num_cell (map_option of_int (elem_id e))),
              (''osm_type'', str_cell (elem_type e))] k"
proof -
  from assms(2) have none: "map_of (get_tags e) k = None" by (simp add: map_of_eq_None_iff)
  show ?thesis
    unfolding cell_at_def extract_element_data_unfold map_of_add_tags [OF assms(1)] none
    by (simp only: option.case)
qed

text \<open>
  C9. When an element carries a tag whose key is one of the fixed row fields, the row
  of \<open>extract_element_data\<close> holds the tag's value under that name: the tags are
  written after the fixed fields and overwrite them. The tag keys of a dict are distinct.
\<close>

theorem extract_element_data_tag_overwrites_fixed_field:
  "distinct (map fst (get_tags e)) \<Longrightarrow> (k, v) \<in> set (get_tags e) \<Longrightarrow>
   k \<in> {''latitude'', ''longitude'', ''query_purpose'', ''query_county'', ''osm_id'', ''osm_type''} \<Longrightarrow>
   cell_at (extract_element_data e nl purpose county) k = Str v \<and>
   map_of (extract_element_data e nl purpose county) k = Some (Str v)"
proof -
  assume d: "distinct (map fst (get_tags e))" and kv: "(k, v) \<in> set (get_tags e)"
  from d kv have "map_of (get_tags e) k = Some v" by simp
  with d have "map_of (extract_element_data e nl purpose county) k = Some (Str v)"
    by (simp add: extract_element_data_def map_of_add_tags split: prod.splits)
  then show ?thesis by (simp add: cell_at_def)
qed

theorem extract_element_data_tag_overwrites_fixed_field_witness:
  "cell_at
     (extract_element_data
        \<lparr>elem_type = Some ''node'', elem_id = Some 1, lat = Some 1, lon = Some 2, nodes = None,
         tags = Some [(''name'', ''X''), (''latitude'', ''north'')]\<rparr>
        Map.empty ''bookstores'' ''alameda'')
     ''latitude'' = Str ''north''"
  by (rule extract_element_data_tag_overwrites_fixed_field [THEN conjunct1])
     (simp_all add: get_tags_def)

section \<open>Processing one document\<close>

lemma create_node_lookup_loop_dom:
  "create_node_lookup_loop es m = Inr nl \<Longrightarrow>
   nl i \<noteq> None \<longleftrightarrow>
     m i \<noteq> None \<or>
     (\<exists>e \<in> set es. elem_type e = Some ''node'' \<and> elem_id e = Some i \<and>
        lat e \<noteq> None \<and> lon e \<noteq> None)"
proof (induction es arbitrary: m)
  case Nil
  then show ?case by simp
next
  case (Cons e es)
  show ?case
  proof (cases "elem_type e = Some ''node'' \<and> lat e \<noteq> None \<and> lon e \<noteq> None")
    case True
    then obtain la lo where c: "elem_type e = Some ''node''" "lat e = Some la" "lon e = Some lo"
      by auto
    with Cons.prems obtain j where j: "elem_id e = Some j"
      and rest: "create_node_lookup_loop es (m(j \<mapsto> (la, lo))) = Inr nl"
      by (auto split: option.splits)
    from Cons.IH [OF rest] c j show ?thesis by auto
  next
    case False
    with Cons.prems have rest: "create_node_lookup_loop es m = Inr nl"
      by (auto split: option.splits if_splits)
    from Cons.IH [OF rest] False show ?thesis by auto
  qed
qed

lemma create_node_lookup_loop_entry:
  "create_node_lookup_loop es m = Inr nl \<Longrightarrow> nl i = Some (la, lo) \<Longrightarrow>
   m i = Some (la, lo) \<or>
   (\<exists>e \<in> set es. elem_type e = Some ''node'' \<and> elem_id e = Some i \<and>
      lat e = Some la \<and> lon e = Some lo)"
proof (induction es arbitrary: m)
  case Nil
  then show ?case by simp
next
  case (Cons e es)
  show ?case
  proof (cases "elem_type e = Some ''node'' \<and> lat e \<noteq> None \<and> lon e \<noteq> None")
    case True
    then obtain la' lo' where c: "elem_type e = Some ''node''" "lat e = Some la'" "lon e = Some lo'"
      by auto
    with Cons.prems(1) obtain j where j: "elem_id e = Some j"
      and rest: "create_node_lookup_loop es (m(j \<mapsto> (la', lo'))) = Inr nl"
      by (auto split: option.splits)
    from Cons.IH [OF rest Cons.prems(2)] c j show ?thesis
      by (auto split: if_splits)
  next
    case False
    with Cons.prems(1) have rest: "create_node_lookup_loop es m = Inr nl"
      by (auto split: option.splits if_splits)
    from Cons.IH [OF rest Cons.prems(2)] show ?thesis by auto
  qed
qed

lemma should_include_element_tags_nonempty:
  "should_include_element e nl \<Longrightarrow> get_tags e \<noteq> []"
  by (auto simp: should_include_element_def Let_def)

definition scenario_theatre :: element where
  "scenario_theatre =
     \<lparr>elem_type = Some ''node'', elem_id = Some 1, lat = Some 1, lon = Some 2, nodes = None,
      tags = Some [(''amenity'', ''theatre'')]\<rparr>"

definition scenario_way :: element where
  "scenario_way =
     \<lparr>elem_type = Some ''way'', elem_id = Some 2, lat = None, lon = None, nodes = Some [3],
      tags = None\<rparr>"

definition scenario_sibling :: element where
  "scenario_sibling =
     \<lparr>elem_type = Some ''node'', elem_id = Some 3, lat = Some 3, lon = Some 4, nodes = None,
      tags = Some [(''source'', ''survey'')]\<rparr>"


lemma scenario_lookup:
  "create_node_lookup [scenario_theatre] = Inr [1 \<mapsto> (1, 2)] \<and>
   create_node_lookup [scenario_way, scenario_sibling] = Inr [3 \<mapsto> (3, 4)]"
  by (simp add: create_node_lookup_def scenario_theatre_def scenario_way_def scenario_sibling_def)

lemma scenario_include:
  "should_include_element scenario_theatre nl \<and>
   \<not> should_include_element scenario_way nl \<and>
   \<not> should_include_element scenario_sibling nl"
  by (simp add: should_include_element_def get_tags_def scenario_theatre_def scenario_way_def
      scenario_sibling_def meaningful_keys_def startswith_any_def startswith_def
      noise_prefixes_def)

lemma scenario_rows:
  "process_json_file (Inr \<lparr>elements = Some [scenario_theatre]\<rparr>) ''parks'' ''A'' @
   process_json_file (Inr \<lparr>elements = Some [scenario_way, scenario_sibling]\<rparr>) ''parks'' ''A'' =
     [[(''latitude'', Num 1), (''longitude'', Num 2), (''query_purpose'', Str ''parks''),
       (''query_county'', Str ''A''), (''osm_id'', Num 1), (''osm_type'', Str ''node''),
       (''amenity'', Str ''theatre'')]]"
  by (simp add: process_json_file_def scenario_lookup scenario_include)
     (simp add: extract_element_data_def get_element_coordinates_def get_tags_def
        scenario_theatre_def num_cell_def str_cell_def)

lemma process_json_file_general:
  assumes "elements d = Some els" and "create_node_lookup els = Inr nl"
  shows
    "process_json_file (Inr d) purpose county =
       map (\<lambda>e. extract_element_data e nl purpose county)
         (filter (\<lambda>e. should_include_element e nl) els) \<and>
     (\<forall>e \<in> set (filter (\<lambda>e. should_include_element e nl) els). get_tags e \<noteq> []) \<and>
     (\<forall>i. i \<in> dom nl \<longleftrightarrow>
        (\<exists>e \<in> set els. elem_type e = Some ''node'' \<and> elem_id e = Some i \<and>
           lat e \<noteq> None \<and> lon e \<noteq> None)) \<and>
     (\<forall>i la lo. nl i = Some (la, lo) \<longrightarrow>
        (\<exists>e \<in> set els. elem_type e = Some ''node'' \<and> elem_id e = Some i \<and>
           lat e = Some la \<and> lon e = Some lo))"
proof (intro conjI)
  show "process_json_file (Inr d) purpose county =
       map (\<lambda>e. extract_element_data e nl purpose county)
         (filter (\<lambda>e. should_include_element e nl) els)"
    using assms by (simp add: process_json_file_def)
  show "\<forall>e \<in> set (filter (\<lambda>e. should_include_element e nl) els). get_tags e \<noteq> []"
    by (auto dest: should_include_element_tags_nonempty)
  show "\<forall>i. i \<in> dom nl \<longleftrightarrow>
        (\<exists>e \<in> set els. elem_type e = Some ''node'' \<and> elem_id e = Some i \<and>
           lat e \<noteq> None \<and> lon e \<noteq> None)"
    using create_node_lookup_loop_dom [of els Map.empty nl] assms(2)
    by (simp add: create_node_lookup_def dom_def)
  show "\<forall>i la lo. nl i = Some (la, lo) \<longrightarrow>
        (\<exists>e \<in> set els. elem_type e = Some ''node'' \<and> elem_id e = Some i \<and>
           lat e = Some la \<and> lon e = Some lo)"
    using create_node_lookup_loop_entry [of els Map.empty nl] assms(2)
    by (simp add: create_node_lookup_def)
qed

text \<open>
  C8. A document yields one row per element that \<open>should_include_element\<close> accepts,
  in document order, and none for an element without tags; its node lookup holds every
  node that carries an id and both coordinates, whether or not that node is itself
  accepted. In the scenario (a node tagged amenity=theatre at (1, 2) in one document; a
  way without tags whose first node is a node at (3, 4) tagged only source=survey in
  another) exactly one row is produced, the theatre's, while the lookup of the second
  document holds the untagged way's first node.
\<close>

theorem process_json_file_rows_and_lookup:
  "(elements d = Some els \<and> create_node_lookup els = Inr nl \<longrightarrow>
      process_json_file (Inr d) purpose county =
        map (\<lambda>e. extract_element_data e nl purpose county)
          (filter (\<lambda>e. should_include_element e nl) els) \<and>
      (\<forall>e \<in> set (filter (\<lambda>e. should_include_element e nl) els). get_tags e \<noteq> []) \<and>
      (\<forall>i. i \<in> dom nl \<longleftrightarrow>
         (\<exists>e \<in> set els. elem_type e = Some ''node'' \<and> elem_id e = Some i \<and>
            lat e \<noteq> None \<and> lon e \<noteq> None)) \<and>
      (\<forall>i la lo. nl i = Some (la, lo) \<longrightarrow>
         (\<exists>e \<in> set els. elem_type e = Some ''node'' \<and> elem_id e = Some i \<and>
            lat e = Some la \<and> lon e = Some lo))) \<and>
   process_json_file (Inr \<lparr>elements = Some [scenario_theatre]\<rparr>) ''parks'' ''A'' @
   process_json_file (Inr \<lparr>elements = Some [scenario_way, scenario_sibling]\<rparr>) ''parks'' ''A'' =
     [[(''latitude'', Num 1), (''longitude'', Num 2), (''query_purpose'', Str ''parks''),
       (''query_county'', Str ''A''), (''osm_id'', Num 1), (''osm_type'', Str ''node''),
       (''amenity'', Str ''theatre'')]] \<and>
   create_node_lookup [scenario_way, scenario_sibling] = Inr [3 \<mapsto> (3, 4)] \<and>
   \<not> should_include_element scenario_sibling [3 \<mapsto> (3, 4)] \<and>
   get_element_coordinates scenario_way [3 \<mapsto> (3, 4)] = (Some 3, Some 4)"
proof -
  have "get_element_coordinates scenario_way [3 \<mapsto> (3, 4)] = (Some 3, Some 4)"
    by (simp add: get_element_coordinates_def get_nodes_def scenario_way_def)
  then show ?thesis
    using process_json_file_general [of d els nl purpose county] scenario_rows scenario_lookup
      scenario_include [of "[3 \<mapsto> (3, 4)]"]
    by blast
qed

theorem process_json_file_rows_and_lookup_witness:
  "process_json_file (Inr \<lparr>elements = Some [scenario_way, scenario_sibling]\<rparr>) ''parks'' ''A'' = [] \<and>
   dom [3 \<mapsto> (3::rat, 4::rat)] = {3::int}"
proof -
  have pre: "elements \<lparr>elements = Some [scenario_way, scenario_sibling]\<rparr> =
      Some [scenario_way, scenario_sibling] \<and>
      create_node_lookup [scenario_way, scenario_sibling] = Inr [3 \<mapsto> (3, 4)]"
    by (simp add: scenario_lookup)
  from process_json_file_rows_and_lookup
    [of "\<lparr>elements = Some [scenario_way, scenario_sibling]\<rparr>"
        "[scenario_way, scenario_sibling]" "[3 \<mapsto> (3, 4)]" "''parks''" "''A''",
      THEN conjunct1, THEN mp, OF pre]
  have "process_json_file (Inr \<lparr>elements = Some [scenario_way, scenario_sibling]\<rparr>) ''parks'' ''A'' =
      map (\<lambda>e. extract_element_data e [3 \<mapsto> (3, 4)] ''parks'' ''A'')
        (filter (\<lambda>e. should_include_element e [3 \<mapsto> (3, 4)]) [scenario_way, scenario_sibling])"
    by (rule conjunct1)
  then show ?thesis
    by (simp add: scenario_include)
qed

section \<open>query\_osm.py: the retriever\<close>

text \<open>
  The network is the sequence of outcomes of the successive \<^verbatim>\<open>httpx.post\<close> calls: a
  response with its status code and its body as \<^verbatim>\<open>response.json()\<close> decodes it
  (\<open>None\<close> when decoding raises), or an exception raised by the call. Every attempt
  makes exactly one call, so the outcome of attempt \<open>n\<close> is \<open>post n\<close>. The function
  returns its result together with the delays passed to \<^verbatim>\<open>time.sleep\<close>, in order, and
  the number of requests made. A negative \<^verbatim>\<open>max_retries\<close> behaves as zero.
\<close>

datatype 'j outcome = Response int "'j option" | TransportError

text \<open>What one iteration of the loop does: return, sleep and go on, or break.\<close>

datatype 'j step = Return "'j option" | Sleep nat | Break

text \<open>The \<^verbatim>\<open>except Exception\<close> handler.\<close>

definition on_exception :: "nat \<Rightarrow> nat \<Rightarrow> 'j step" where
  "on_exception max_retries attempt =
     (let delay = (if attempt < max_retries - 1 then 2 ^ attempt else 0)
      in if delay > 0 then Sleep delay else Break)"

definition attempt_step :: "'j outcome \<Rightarrow> nat \<Rightarrow> nat \<Rightarrow> 'j step" where
  "attempt_step outcome max_retries attempt =
     (case outcome of
        Response status_code body \<Rightarrow>
          (if status_code = 200 then
             (case body of
                Some j \<Rightarrow> Return (Some j)
              | None \<Rightarrow> on_exception max_retries attempt)
           else if status_code \<ge> 500 \<or> status_code = 429 then Sleep (2 ^ attempt)
           else Return None)
      | TransportError \<Rightarrow> on_exception max_retries attempt)"

function query_overpass_loop ::
  "(nat \<Rightarrow> 'j outcome) \<Rightarrow> nat \<Rightarrow> nat \<Rightarrow> nat list \<Rightarrow> 'j option \<times> nat list \<times> nat" where
  "query_overpass_loop post max_retries attempt sleeps =
     (if attempt < max_retries then
        (case attempt_step (post attempt) max_retries attempt of
           Return r \<Rightarrow> (r, sleeps, Suc attempt)
         | Sleep delay \<Rightarrow> query_overpass_loop post max_retries (Suc attempt) (sleeps @ [delay])
         | Break \<Rightarrow> (None, sleeps, Suc attempt))
      else (None, sleeps, attempt))"
  by pat_completeness auto
termination
  by (relation "measure (\<lambda>(post, max_retries, attempt, sleeps). max_retries - attempt)") auto

declare query_overpass_loop.simps [simp del]

definition query_overpass :: "(nat \<Rightarrow> 'j outcome) \<Rightarrow> nat \<Rightarrow> 'j option \<times> nat list \<times> nat" where
  "query_overpass post max_retries = query_overpass_loop post max_retries 0 []"

lemma query_overpass_loop_retry:
  assumes "attempt < max_retries" and "post attempt = Response st body"
    and "500 \<le> st \<or> st = 429"
  shows "query_overpass_loop post max_retries attempt sleeps =
     query_overpass_loop post max_retries (Suc attempt) (sleeps @ [2 ^ attempt])"
  using assms by (subst query_overpass_loop.simps) (auto simp: attempt_step_def)

lemma query_overpass_loop_retries:
  "k \<le> max_retries \<Longrightarrow>
   \<forall>i < k. \<exists>st body. post i = Response st body \<and> (500 \<le> st \<or> st = 429) \<Longrightarrow>
   query_overpass_loop post max_retries 0 [] =
     query_overpass_loop post max_retries k (map (\<lambda>i. 2 ^ i) [0..<k])"
proof (induction k)
  case 0
  then show ?case by simp
next
  case (Suc k)
  then have "query_overpass_loop post max_retries 0 [] =
      query_overpass_loop post max_retries k (map (\<lambda>i. 2 ^ i) [0..<k])"
    by simp
  also from Suc.prems obtain st body
    where "post k = Response st body" and "500 \<le> st \<or> st = 429"
    by blast
  with Suc.prems have "query_overpass_loop post max_retries k (map (\<lambda>i. 2 ^ i) [0..<k]) =
      query_overpass_loop post max_retries (Suc k) (map (\<lambda>i. 2 ^ i) [0..<k] @ [2 ^ k])"
    by (intro query_overpass_loop_retry) auto
  finally show ?case by simp
qed

lemma query_overpass_success:
  assumes "k < max_retries"
    and "\<forall>i < k. \<exists>st body. post i = Response st body \<and> (500 \<le> st \<or> st = 429)"
    and "post k = Response 200 (Some j)"
  shows "query_overpass post max_retries = (Some j, map (\<lambda>i. 2 ^ i) [0..<k], Suc k)"
proof -
  have "query_overpass post max_retries =
      query_overpass_loop post max_retries k (map (\<lambda>i. 2 ^ i) [0..<k])"
    unfolding query_overpass_def using assms(1,2)
    by (intro query_overpass_loop_retries) auto
  also have "\<dots> = (Some j, map (\<lambda>i. 2 ^ i) [0..<k], Suc k)"
    using assms(1,3) by (subst query_overpass_loop.simps) (simp add: attempt_step_def)
  finally show ?thesis .
qed

lemma query_overpass_client_error:
  assumes "k < max_retries"
    and "\<forall>i < k. \<exists>st body. post i = Response st body \<and> (500 \<le> st \<or> st = 429)"
    and "post k = Response st body" and "st \<noteq> 200" and "st < 500" and "st \<noteq> 429"
  shows "query_overpass post max_retries = (None, map (\<lambda>i. 2 ^ i) [0..<k], Suc k)"
proof -
  have "query_overpass post max_retries =
      query_overpass_loop post max_retries k (map (\<lambda>i. 2 ^ i) [0..<k])"
    unfolding query_overpass_def using assms(1,2)
    by (intro query_overpass_loop_retries) auto
  also have "\<dots> = (None, map (\<lambda>i. 2 ^ i) [0..<k], Suc k)"
    using assms(1,3-) by (subst query_overpass_loop.simps) (simp add: attempt_step_def)
  finally show ?thesis .
qed

lemma query_overpass_exhausted:
  assumes "\<forall>i < max_retries. \<exists>st body. post i = Response st body \<and> (500 \<le> st \<or> st = 429)"
  shows "query_overpass post max_retries =
     (None, map (\<lambda>i. 2 ^ i) [0..<max_retries], max_retries)"
proof -
  have "query_overpass post max_retries =
      query_overpass_loop post max_retries max_retries (map (\<lambda>i. 2 ^ i) [0..<max_retries])"
    unfolding query_overpass_def using assms
    by (intro query_overpass_loop_retries) auto
  also have "\<dots> = (None, map (\<lambda>i. 2 ^ i) [0..<max_retries], max_retries)"
    by (subst query_overpass_loop.simps) simp
  finally show ?thesis .
qed

lemma upt_5: "[0..<5] = [0, 1, 2, 3, 4]"
  by (simp add: upt_rec)

text \<open>
  C7. With at most \<open>max_retries\<close> attempts (5 by default), \<open>query_overpass\<close> sleeps
  \<open>2 ^ attempt\<close> seconds after every response whose status is at least 500 or is 429
  and tries again; it returns the decoded body of the first 200 response; on any other
  status it returns None at once, with no further sleep or request; after
  \<open>max_retries\<close> retryable responses it returns None, having slept 1, 2, 4, 8 and 16
  seconds when \<open>max_retries\<close> is 5. After three 503 responses and a 200 it has slept
  exactly 1, 2 and 4 seconds and returns the body of the 200 response. The function is
  total: every path ends in a returned value, none in an exception.
\<close>

theorem query_overpass_retry_policy:
  "(\<forall>k j. k < max_retries \<and>
      (\<forall>i < k. \<exists>st body. post i = Response st body \<and> (500 \<le> st \<or> st = 429)) \<and>
      post k = Response 200 (Some j) \<longrightarrow>
      query_overpass post max_retries = (Some j, map (\<lambda>i. 2 ^ i) [0..<k], Suc k)) \<and>
   (\<forall>k st body. k < max_retries \<and>
      (\<forall>i < k. \<exists>st body. post i = Response st body \<and> (500 \<le> st \<or> st = 429)) \<and>
      post k = Response st body \<and> st \<noteq> 200 \<and> st < 500 \<and> st \<noteq> 429 \<longrightarrow>
      query_overpass post max_retries = (None, map (\<lambda>i. 2 ^ i) [0..<k], Suc k)) \<and>
   ((\<forall>i < max_retries. \<exists>st body. post i = Response st body \<and> (500 \<le> st \<or> st = 429)) \<longrightarrow>
      query_overpass post max_retries =
        (None, map (\<lambda>i. 2 ^ i) [0..<max_retries], max_retries)) \<and>
   ((\<forall>i < 5. \<exists>st body. post i = Response st body \<and> (500 \<le> st \<or> st = 429)) \<longrightarrow>
      query_overpass post 5 = (None, [1, 2, 4, 8, 16], 5)) \<and>
   query_overpass (\<lambda>i. if i < 3 then Response 503 b else Response 200 (Some body200)) 5 =
     (Some body200, [1, 2, 4], 4)"
proof (intro conjI allI impI)
  fix k j
  assume "k < max_retries \<and>
      (\<forall>i < k. \<exists>st body. post i = Response st body \<and> (500 \<le> st \<or> st = 429)) \<and>
      post k = Response 200 (Some j)"
  then show "query_overpass post max_retries = (Some j, map (\<lambda>i. 2 ^ i) [0..<k], Suc k)"
    by (intro query_overpass_success) auto
next
  fix k st body
  assume "k < max_retries \<and>
      (\<forall>i < k. \<exists>st body. post i = Response st body \<and> (500 \<le> st \<or> st = 429)) \<and>
      post k = Response st body \<and> st \<noteq> 200 \<and> st < 500 \<and> st \<noteq> 429"
  then show "query_overpass post max_retries = (None, map (\<lambda>i. 2 ^ i) [0..<k], Suc k)"
    by (intro query_overpass_client_error [where st = st and body = body]) auto
next
  assume "\<forall>i < max_retries. \<exists>st body. post i = Response st body \<and> (500 \<le> st \<or> st = 429)"
  then show "query_overpass post max_retries =
      (None, map (\<lambda>i. 2 ^ i) [0..<max_retries], max_retries)"
    by (rule query_overpass_exhausted)
next
  assume "\<forall>i < 5. \<exists>st body. post i = Response st body \<and> (500 \<le> st \<or> st = 429)"
  then show "query_overpass post 5 = (None, [1, 2, 4, 8, 16], 5)"
    using query_overpass_exhausted [of 5 post] by (simp add: upt_5)
next
  show "query_overpass (\<lambda>i. if i < 3 then Response 503 b else Response 200 (Some body200)) 5 =
      (Some body200, [1, 2, 4], 4)"
    by (simp add: query_overpass_def query_overpass_loop.simps attempt_step_def)
qed

theorem query_overpass_retry_policy_witness:
  "query_overpass (\<lambda>i. if i < 2 then Response 429 None else Response 200 (Some ''{}'')) 5 =
     (Some ''{}'', [1, 2], 3) \<and>
   query_overpass (\<lambda>i. if i < 1 then Response 502 None else Response 404 (Some ''{}'')) 5 =
     (None, [1], 2) \<and>
   query_overpass (\<lambda>i. Response 503 (None :: string option)) 5 = (None, [1, 2, 4, 8, 16], 5)"
proof (intro conjI)
  let ?p = "\<lambda>i::nat. if i < 2 then Response 429 None else Response 200 (Some ''{}'')"
  have "2 < (5::nat) \<and>
      (\<forall>i < 2. \<exists>st body. ?p i = Response st body \<and> (500 \<le> st \<or> st = 429)) \<and>
      ?p 2 = Response 200 (Some ''{}'')"
    by simp
  with query_overpass_retry_policy [of 5 ?p, THEN conjunct1, rule_format, of 2 "''{}''"]
  have "query_overpass ?p 5 = (Some ''{}'', map (\<lambda>i. 2 ^ i) [0..<2], Suc 2)"
    by blast
  then show "query_overpass ?p 5 = (Some ''{}'', [1, 2], 3)"
    by (simp add: upt_rec numeral_3_eq_3)
next
  let ?p = "\<lambda>i::nat. if i < 1 then Response 502 None else Response 404 (Some ''{}'')"
  have "1 < (5::nat) \<and>
      (\<forall>i < 1. \<exists>st body. ?p i = Response st body \<and> (500 \<le> st \<or> st = 429)) \<and>
      ?p 1 = Response 404 (Some ''{}'') \<and> (404::int) \<noteq> 200 \<and> (404::int) < 500 \<and> (404::int) \<noteq> 429"
    by simp
  with query_overpass_retry_policy [of 5 ?p, THEN conjunct2, THEN conjunct1, rule_format,
      of 1 404 "Some ''{}''"]
  have "query_overpass ?p 5 = (None, map (\<lambda>i. 2 ^ i) [0..<1], Suc 1)"
    by blast
  then show "query_overpass ?p 5 = (None, [1], 2)"
    by (simp add: numeral_2_eq_2)
next
  let ?p = "\<lambda>i::nat. Response 503 (None :: string option)"
  have "\<forall>i < 5. \<exists>st body. ?p i = Response st body \<and> (500 \<le> st \<or> st = 429)"
    by simp
  with query_overpass_retry_policy [of 5 ?p, THEN conjunct2, THEN conjunct2, THEN conjunct2,
      THEN conjunct1]
  show "query_overpass ?p 5 = (None, [1, 2, 4, 8, 16], 5)"
    by blast
qed

section \<open>The pandas operations used by main\<close>

text \<open>
  The tabulator manipulates its rows through pandas. The operations it calls are
  modelled here from their documented behaviour. A frame is its list of column labels
  and its rows; every row of a frame is kept aligned with the columns (one entry per
  column, in column order). Row labels (the index) play no role in the program and are
  left out. A failed label lookup raises KeyError, which is a value of the model.
\<close>

record dataframe =
  columns :: "string list"
  rows :: "row list"

text \<open>A row read under a list of column labels; a label the row lacks reads as NaN.\<close>

definition reindex :: "string list \<Rightarrow> row \<Rightarrow> row" where
  "reindex cols r = map (\<lambda>c. (c, cell_at r c)) cols"

text \<open>
  \<^verbatim>\<open>pd.DataFrame(list_of_dicts)\<close>: the columns are the keys of the dicts in order of first
  appearance, and a row holds NaN where its dict lacks the key.
\<close>

definition add_key :: "string \<Rightarrow> string list \<Rightarrow> string list" where
  "add_key k cols = (if k \<in> set cols then cols else cols @ [k])"

definition DataFrame :: "row list \<Rightarrow> dataframe" where
  "DataFrame data =
     (let cols = fold (\<lambda>r. fold add_key (map fst r)) data []
      in \<lparr>columns = cols, rows = map (reindex cols) data\<rparr>)"

text \<open>\<^verbatim>\<open>df[c]\<close> for one label: the column's values, or KeyError.\<close>

definition getitem :: "dataframe \<Rightarrow> string \<Rightarrow> py_error + cell list" where
  "getitem df c =
     (if c \<in> set (columns df) then Inr (map (\<lambda>r. cell_at r c) (rows df))
      else Inl (KeyError c))"

text \<open>\<^verbatim>\<open>series.isin(values)\<close>; NaN is in no list of strings.\<close>

definition isin :: "cell list \<Rightarrow> cell list \<Rightarrow> bool list" where
  "isin series vals = map (\<lambda>v. v \<in> set vals) series"

text \<open>\<^verbatim>\<open>df[mask]\<close> for a boolean series over the rows of \<open>df\<close>.\<close>

definition boolean_index :: "dataframe \<Rightarrow> bool list \<Rightarrow> dataframe" where
  "boolean_index df row_mask = df\<lparr>rows := map fst (filter snd (zip (rows df) row_mask))\<rparr>"

text \<open>
  \<^verbatim>\<open>df[c] = v\<close> for a scalar \<open>v\<close>: every row gets \<open>v\<close> under \<open>c\<close>; an existing column
  is overwritten in place, a new one is appended.
\<close>

definition setitem :: "dataframe \<Rightarrow> string \<Rightarrow> cell \<Rightarrow> dataframe" where
  "setitem df c v = \<lparr>columns = add_key c (columns df), rows = map (AList.update c v) (rows df)\<rparr>"

text \<open>
  \<^verbatim>\<open>df[cols]\<close> for a list of labels: the frame with exactly these columns in this order;
  KeyError when a label is not a column (the model reports the first missing label).
\<close>

definition getitem_columns :: "dataframe \<Rightarrow> string list \<Rightarrow> py_error + dataframe" where
  "getitem_columns df cols =
     (case filter (\<lambda>c. c \<notin> set (columns df)) cols of
        [] \<Rightarrow> Inr \<lparr>columns = cols, rows = map (reindex cols) (rows df)\<rparr>
      | c # _ \<Rightarrow> Inl (KeyError c))"

text \<open>
  \<^verbatim>\<open>df.sort_values(by)\<close>: a stable sort of the rows by the listed columns, NaN last.
  Numbers are ordered before strings where a column mixes both. No statement below
  depends on the order of the rows.
\<close>

fun cell_key :: "cell \<Rightarrow> nat \<times> rat \<times> string" where
  "cell_key (Num q) = (0, q, [])"
| "cell_key (Str s) = (1, 0, s)"
| "cell_key Null = (2, 0, [])"

definition sort_values :: "dataframe \<Rightarrow> string list \<Rightarrow> py_error + dataframe" where
  "sort_values df by_cols =
     (case filter (\<lambda>c. c \<notin> set (columns df)) by_cols of
        [] \<Rightarrow> Inr (df\<lparr>rows := sort_key (\<lambda>r. map (\<lambda>c. cell_key (cell_at r c)) by_cols) (rows df)\<rparr>)
      | c # _ \<Rightarrow> Inl (KeyError c))"

text \<open>
  \<^verbatim>\<open>df.groupby(c)\<close>, iterated: one sub-frame per distinct non-NaN value of the column,
  in ascending order of the value, each with the rows of \<open>df\<close> that hold it, in order.
\<close>

definition groupby :: "dataframe \<Rightarrow> string \<Rightarrow> py_error + (cell \<times> dataframe) list" where
  "groupby df c =
     (if c \<in> set (columns df) then
        Inr (map (\<lambda>k. (k, df\<lparr>rows := filter (\<lambda>r. cell_at r c = k) (rows df)\<rparr>))
               (sort_key cell_key
                  (remdups (filter (\<lambda>v. v \<noteq> Null) (map (\<lambda>r. cell_at r c) (rows df))))))
      else Inl (KeyError c))"

text \<open>\<^verbatim>\<open>df.drop(columns=cs)\<close>.\<close>

definition drop_columns :: "dataframe \<Rightarrow> string list \<Rightarrow> dataframe" where
  "drop_columns df cs =
     (let cols = filter (\<lambda>c. c \<notin> set cs) (columns df)
      in \<lparr>columns = cols, rows = map (reindex cols) (rows df)\<rparr>)"

text \<open>\<^verbatim>\<open>isna() | (== '')\<close> on one value.\<close>

definition is_empty_cell :: "cell \<Rightarrow> bool" where
  "is_empty_cell v = (v = Null \<or> v = Str [])"

section \<open>convert\_to\_csv.py: main\<close>

text \<open>The two tables imported from query\_osm.py.\<close>

definition COUNTIES :: "(string \<times> string) list" where
  "COUNTIES = [(''alameda'', ''3600396499''), (''contra_costa'', ''3600396462''),
     (''san_francisco'', ''3600111968''), (''san_mateo'', ''3600396498''),
     (''santa_clara'', ''3600396501'')]"

definition QUERIES :: "(string \<times> string list) list" where
  "QUERIES =
     [(''religion'', [''amenity=place_of_worship'', ''building=temple'', ''building=synagogue'',
         ''building=mosque'', ''building=church'', ''building=cathedral'', ''building=chapel'',
         ''building=gurdwara'', ''religion'', ''denomination'']),
      (''social_community'', [''amenity=social_facility'', ''amenity=arts_centre'',
         ''amenity=community_centre'']),
      (''events'', [''amenity=theatre'', ''amenity=nightclub'', ''amenity=events_venue'',
         ''amenity=conference_centre'', ''leisure=stadium'', ''amenity=marketplace'',
         ''amenity=exhibition_centre'', ''amenity=festival_grounds'', ''leisure=festival_grounds'']),
      (''bikeshops'', [''shop=bicycle'']),
      (''bookstores'', [''shop=books''])]"

text \<open>
  The data directory as main reads it: the sub-directories by name, each with its
  \<^verbatim>\<open>*.json\<close> files by stem and the outcome of loading each file. Entries that are not
  directories are left out (main skips them). The directory is assumed to exist.
\<close>

type_synonym data_dir = "(string \<times> (string \<times> (py_error + document)) list) list"

text \<open>
  The collection loop: directories and files are visited in sorted order (a file by its
  name, stem and extension); unknown counties and unknown query names are skipped.
\<close>

definition main_all_data :: "data_dir \<Rightarrow> row list" where
  "main_all_data data_dir =
     concat (map (\<lambda>(query_county, files).
        if query_county \<notin> set (map fst COUNTIES) then []
        else concat (map (\<lambda>(query_purpose, loaded).
               if query_purpose \<notin> set (map fst QUERIES) then []
               else process_json_file loaded query_purpose query_county)
             (sort_key (\<lambda>(stem, loaded). stem @ ''.json'') files)))
       (sort_key fst data_dir))"

text \<open>The frame of all rows, the religion filter and the five blank columns.\<close>

definition main_df_all :: "row list \<Rightarrow> py_error + dataframe" where
  "main_df_all all_data =
     (let df_all = DataFrame all_data in
      case getitem df_all ''religion'' of
        Inl err \<Rightarrow> Inl err
      | Inr religion \<Rightarrow>
          (let religion_mask = map Not (isin religion [Str ''no'', Str ''none'']);
               df_all = boolean_index df_all religion_mask;
               df_all = setitem df_all ''Collaborated'' (Str []);
               df_all = setitem df_all ''city'' (Str []);
               df_all = setitem df_all ''person_with_relationship'' (Str []);
               df_all = setitem df_all ''org_contact'' (Str []);
               df_all = setitem df_all ''org_contact_title'' (Str [])
           in Inr df_all))"

definition priority_cols :: "string list" where
  "priority_cols = [''name'', ''Collaborated'', ''query_county'', ''city'', ''query_purpose'',
     ''person_with_relationship'', ''org_contact'', ''org_contact_title'', ''phone'', ''email'',
     ''contact:email'', ''website'']"

definition remaining_base_cols :: "string list" where
  "remaining_base_cols = [''latitude'', ''longitude'', ''osm_id'', ''osm_type'']"

definition main_other_cols :: "dataframe \<Rightarrow> string list" where
  "main_other_cols df_all =
     filter (\<lambda>col. col \<notin> set (priority_cols @ remaining_base_cols)) (columns df_all)"

definition main_col_order :: "dataframe \<Rightarrow> string list" where
  "main_col_order df_all =
     priority_cols @ remaining_base_cols @
     sort_key (\<lambda>x. (startswith x ''addr:'', x)) (main_other_cols df_all)"

text \<open>The body of the loop over the groups, up to the table handed to \<^verbatim>\<open>to_csv\<close>.\<close>

definition main_export_group ::
  "string list \<Rightarrow> string list \<Rightarrow> dataframe \<Rightarrow> py_error + dataframe" where
  "main_export_group col_order tag_columns group_df =
     (case getitem_columns group_df col_order of
        Inl err \<Rightarrow> Inl err
      | Inr group_df \<Rightarrow>
          (case sort_values group_df [''query_county'', ''osm_id''] of
             Inl err \<Rightarrow> Inl err
           | Inr group_df \<Rightarrow>
               (let columns_to_drop =
                      filter (\<lambda>col. col \<in> set (columns group_df) \<and>
                                list_all (\<lambda>r. is_empty_cell (cell_at r col)) (rows group_df))
                        tag_columns
                in Inr (if columns_to_drop \<noteq> [] then drop_columns group_df columns_to_drop
                        else group_df))))"

text \<open>
  The loop over the groups. The result is the list of tables written, each under its
  group key (the file is named after it), and the exception that ended the run, if any.
\<close>

fun main_export_groups ::
  "string list \<Rightarrow> string list \<Rightarrow> (cell \<times> dataframe) list \<Rightarrow>
   (cell \<times> dataframe) list \<times> py_error option" where
  "main_export_groups col_order tag_columns [] = ([], None)"
| "main_export_groups col_order tag_columns ((purpose, group_df) # groups) =
     (case main_export_group col_order tag_columns group_df of
        Inl err \<Rightarrow> ([], Some err)
      | Inr table \<Rightarrow>
          (case main_export_groups col_order tag_columns groups of
             (written, err) \<Rightarrow> ((purpose, table) # written, err)))"

definition CREATE_SEPARATE_CSV_FILES :: bool where
  "CREATE_SEPARATE_CSV_FILES = True"

text \<open>
  main returns the tables written and the exception that ended the run, if any. With no
  row collected it writes nothing and returns normally.
\<close>

definition main :: "data_dir \<Rightarrow> (cell \<times> dataframe) list \<times> py_error option" where
  "main data_dir =
     (let all_data = main_all_data data_dir in
      if all_data = [] then ([], None)
      else
        (case main_df_all all_data of
           Inl err \<Rightarrow> ([], Some err)
         | Inr df_all \<Rightarrow>
             (let col_order = main_col_order df_all;
                  tag_columns = main_other_cols df_all
              in if CREATE_SEPARATE_CSV_FILES then
                   (case groupby df_all ''query_purpose'' of
                      Inl err \<Rightarrow> ([], Some err)
                    | Inr purpose_groups \<Rightarrow>
                        main_export_groups col_order tag_columns purpose_groups)
                 else
                   (case getitem_columns df_all col_order of
                      Inl err \<Rightarrow> ([], Some err)
                    | Inr df_all \<Rightarrow>
                        (case sort_values df_all [''query_county'', ''query_purpose'', ''osm_id''] of
                           Inl err \<Rightarrow> ([], Some err)
                         | Inr df_all \<Rightarrow> ([(Str ''combined_data'', df_all)], None))))))"

section \<open>Properties of the frame operations\<close>

lemma map_of_reindex:
  "map_of (reindex cols r) c = (if c \<in> set cols then Some (cell_at r c) else None)"
  unfolding reindex_def by (induction cols) auto

lemma cell_at_reindex:
  "cell_at (reindex cols r) c = (if c \<in> set cols then cell_at r c else Null)"
  by (simp add: cell_at_def map_of_reindex)

lemma reindex_reindex:
  "set cols' \<subseteq> set cols \<Longrightarrow> reindex cols' (reindex cols r) = reindex cols' r"
  by (auto simp: reindex_def cell_at_def map_of_reindex [unfolded reindex_def cell_at_def])

lemma cell_at_update:
  "cell_at (AList.update k v r) c = (if c = k then v else cell_at r c)"
  by (simp add: cell_at_def update_conv')

lemma set_fold_add_key: "set (fold add_key ks cols) = set cols \<union> set ks"
  by (induction ks arbitrary: cols) (auto simp: add_key_def)

lemma set_fold_rows:
  "set (fold (\<lambda>r. fold add_key (map fst r)) data cols) = set cols \<union> (\<Union>r \<in> set data. fst ` set r)"
  by (induction data arbitrary: cols) (auto simp: set_fold_add_key)

lemma columns_DataFrame:
  "set (columns (DataFrame data)) = (\<Union>r \<in> set data. fst ` set r)"
  by (simp add: DataFrame_def Let_def set_fold_rows)

lemma rows_DataFrame:
  "rows (DataFrame data) = map (reindex (columns (DataFrame data))) data"
  by (simp add: DataFrame_def Let_def)

lemma filter_zip_mask:
  "map fst (filter snd (zip xs (map f xs))) = filter f xs"
  by (induction xs) auto

lemma boolean_index_map:
  "boolean_index df (map f (rows df)) = df\<lparr>rows := filter f (rows df)\<rparr>"
  by (simp add: boolean_index_def filter_zip_mask)

lemma set_add_key: "set (add_key k cols) = insert k (set cols)"
  by (auto simp: add_key_def)


text \<open>
  Two auxiliary notions for the statements below: the labels of the five blank columns,
  and what the five assignments do to one row.
\<close>

definition blank_cols :: "string list" where
  "blank_cols = [''Collaborated'', ''city'', ''person_with_relationship'', ''org_contact'',
     ''org_contact_title'']"

definition blank_out :: "row \<Rightarrow> row" where
  "blank_out r =
     AList.update ''org_contact_title'' (Str [])
       (AList.update ''org_contact'' (Str [])
          (AList.update ''person_with_relationship'' (Str [])
             (AList.update ''city'' (Str [])
                (AList.update ''Collaborated'' (Str []) r))))"

lemma cell_at_blank_out:
  "cell_at (blank_out r) c = (if c \<in> set blank_cols then Str [] else cell_at r c)"
  by (simp add: blank_out_def blank_cols_def cell_at_update)

section \<open>Properties of main\<close>

lemma main_df_all_Inr:
  assumes "main_df_all all_data = Inr df_all"
  shows "''religion'' \<in> set (columns (DataFrame all_data))"
    and "set (columns df_all) = set (columns (DataFrame all_data)) \<union> set blank_cols"
    and "rows df_all =
      map (\<lambda>r. blank_out (reindex (columns (DataFrame all_data)) r))
        (filter (\<lambda>r. cell_at r ''religion'' \<noteq> Str ''no'' \<and> cell_at r ''religion'' \<noteq> Str ''none'')
           all_data)"
proof -
  let ?df = "DataFrame all_data"
  show rel: "''religion'' \<in> set (columns ?df)"
    using assms by (auto simp: main_df_all_def Let_def getitem_def split: if_splits)
  have msk: "map Not (isin (map (\<lambda>r. cell_at r ''religion'') (rows ?df)) [Str ''no'', Str ''none'']) =
      map (\<lambda>r. cell_at r ''religion'' \<noteq> Str ''no'' \<and> cell_at r ''religion'' \<noteq> Str ''none'') (rows ?df)"
    by (simp add: isin_def)
  have df_all: "df_all =
      setitem (setitem (setitem (setitem (setitem
        (?df\<lparr>rows := filter (\<lambda>r. cell_at r ''religion'' \<noteq> Str ''no'' \<and>
             cell_at r ''religion'' \<noteq> Str ''none'') (rows ?df)\<rparr>)
        ''Collaborated'' (Str [])) ''city'' (Str [])) ''person_with_relationship'' (Str []))
        ''org_contact'' (Str [])) ''org_contact_title'' (Str [])"
    using assms rel
    by (simp add: main_df_all_def Let_def getitem_def msk boolean_index_map)
  show "set (columns df_all) = set (columns ?df) \<union> set blank_cols"
    unfolding df_all by (auto simp: setitem_def set_add_key blank_cols_def)
  have flt: "filter (\<lambda>r. cell_at r ''religion'' \<noteq> Str ''no'' \<and> cell_at r ''religion'' \<noteq> Str ''none'')
        (map (reindex (columns ?df)) all_data) =
      map (reindex (columns ?df))
        (filter (\<lambda>r. cell_at r ''religion'' \<noteq> Str ''no'' \<and> cell_at r ''religion'' \<noteq> Str ''none'')
           all_data)"
    using rel by (simp add: filter_map comp_def cell_at_reindex)
  show "rows df_all =
      map (\<lambda>r. blank_out (reindex (columns ?df) r))
        (filter (\<lambda>r. cell_at r ''religion'' \<noteq> Str ''no'' \<and> cell_at r ''religion'' \<noteq> Str ''none'')
           all_data)"
    unfolding df_all by (simp add: setitem_def rows_DataFrame flt blank_out_def comp_def)
qed

lemma main_df_all_Inl:
  "main_df_all all_data = Inl err \<longleftrightarrow>
     ''religion'' \<notin> set (columns (DataFrame all_data)) \<and> err = KeyError ''religion''"
  by (auto simp: main_df_all_def Let_def getitem_def)

lemma groupby_Inr:
  assumes "groupby df c = Inr groups"
  shows "(k, g) \<in> set groups \<longleftrightarrow>
     k \<noteq> Null \<and> k \<in> (\<lambda>r. cell_at r c) ` set (rows df) \<and>
     g = df\<lparr>rows := filter (\<lambda>r. cell_at r c = k) (rows df)\<rparr>"
  using assms by (auto simp: groupby_def split: if_splits)

lemma main_export_group_Inr:
  assumes "main_export_group col_order tag_columns g = Inr t"
  shows "set col_order \<subseteq> set (columns g)"
    and "columns t =
      filter (\<lambda>c. \<not> (c \<in> set tag_columns \<and> (\<forall>r \<in> set (rows g). is_empty_cell (cell_at r c))))
        col_order"
    and "set (rows t) = reindex (columns t) ` set (rows g)"
proof -
  let ?g1 = "\<lparr>columns = col_order, rows = map (reindex col_order) (rows g)\<rparr>"
  from assms have sel: "getitem_columns g col_order = Inr ?g1"
    by (auto simp: main_export_group_def getitem_columns_def split: list.splits)
  then show sub: "set col_order \<subseteq> set (columns g)"
    by (auto simp: getitem_columns_def filter_empty_conv split: list.splits)
  obtain g2 where srt: "sort_values ?g1 [''query_county'', ''osm_id''] = Inr g2"
    using assms sel by (auto simp: main_export_group_def split: sum.splits)
  then have g2: "columns g2 = col_order" "set (rows g2) = reindex col_order ` set (rows g)"
    by (auto simp: sort_values_def split: list.splits)
  let ?ctd = "filter (\<lambda>col. col \<in> set (columns g2) \<and>
      list_all (\<lambda>r. is_empty_cell (cell_at r col)) (rows g2)) tag_columns"
  have t: "t = (if ?ctd \<noteq> [] then drop_columns g2 ?ctd else g2)"
    using assms sel srt by (simp add: main_export_group_def Let_def)
  have ctd: "c \<in> set ?ctd \<longleftrightarrow>
      c \<in> set tag_columns \<and> c \<in> set col_order \<and> (\<forall>r \<in> set (rows g). is_empty_cell (cell_at r c))"
    for c
    by (auto simp: g2 list_all_iff cell_at_reindex)
  have cols: "columns t = filter (\<lambda>c. c \<notin> set ?ctd) col_order"
    unfolding t by (simp add: drop_columns_def Let_def g2(1) del: set_filter)
  show colt: "columns t =
      filter (\<lambda>c. \<not> (c \<in> set tag_columns \<and> (\<forall>r \<in> set (rows g). is_empty_cell (cell_at r c))))
        col_order"
    unfolding cols by (rule filter_cong, rule refl) (simp only: ctd, blast)
  have subt: "set (columns t) \<subseteq> set col_order"
    unfolding colt by auto
  show "set (rows t) = reindex (columns t) ` set (rows g)"
  proof (cases "?ctd = []")
    case True
    then have "t = g2" by (simp add: t)
    moreover from True have "columns t = col_order"
      unfolding cols by simp
    ultimately show ?thesis by (simp add: g2)
  next
    case False
    then have "t = drop_columns g2 ?ctd" by (simp add: t)
    then have "set (rows t) = reindex (columns t) ` set (rows g2)"
      by (simp add: drop_columns_def Let_def)
    also have "\<dots> = (\<lambda>r. reindex (columns t) (reindex col_order r)) ` set (rows g)"
      by (simp add: g2 image_image)
    also have "\<dots> = reindex (columns t) ` set (rows g)"
      using subt by (simp add: reindex_reindex)
    finally show ?thesis .
  qed
qed

lemma main_export_groups_written:
  "main_export_groups col_order tag_columns groups = (written, err) \<Longrightarrow>
   (k, t) \<in> set written \<Longrightarrow>
   \<exists>g. (k, g) \<in> set groups \<and> main_export_group col_order tag_columns g = Inr t"
proof (induction groups arbitrary: written err)
  case Nil
  then show ?case by simp
next
  case (Cons kg groups)
  obtain k' g' where kg: "kg = (k', g')" by (cases kg)
  show ?case
  proof (cases "main_export_group col_order tag_columns g'")
    case (Inl e)
    with Cons.prems kg show ?thesis by simp
  next
    case (Inr t')
    obtain w e where rest: "main_export_groups col_order tag_columns groups = (w, e)"
      by (cases "main_export_groups col_order tag_columns groups")
    with Cons.prems kg Inr have "written = (k', t') # w" by simp
    with Cons.prems(2) have "(k, t) = (k', t') \<or> (k, t) \<in> set w" by auto
    then show ?thesis
    proof
      assume "(k, t) = (k', t')"
      with Inr kg show ?thesis by auto
    next
      assume "(k, t) \<in> set w"
      from Cons.IH [OF rest this] show ?thesis by auto
    qed
  qed
qed

lemma main_export_groups_complete:
  "main_export_groups col_order tag_columns groups = (written, None) \<Longrightarrow>
   (k, g) \<in> set groups \<Longrightarrow>
   \<exists>t. main_export_group col_order tag_columns g = Inr t \<and> (k, t) \<in> set written"
proof (induction groups arbitrary: written)
  case Nil
  then show ?case by simp
next
  case (Cons kg groups)
  obtain k' g' where kg: "kg = (k', g')" by (cases kg)
  show ?case
  proof (cases "main_export_group col_order tag_columns g'")
    case (Inl e)
    with Cons.prems kg show ?thesis by simp
  next
    case (Inr t')
    obtain w e where rest: "main_export_groups col_order tag_columns groups = (w, e)"
      by (cases "main_export_groups col_order tag_columns groups")
    with Cons.prems kg Inr have w: "written = (k', t') # w" and e: "e = None" by simp_all
    from Cons.prems(2) kg have "(k, g) = (k', g') \<or> (k, g) \<in> set groups" by auto
    then show ?thesis
    proof
      assume "(k, g) = (k', g')"
      with Inr w show ?thesis by auto
    next
      assume "(k, g) \<in> set groups"
      from Cons.IH [OF rest [unfolded e] this] w show ?thesis by auto
    qed
  qed
qed

lemma main_written:
  assumes "main data_dir = (written, err)" and "written \<noteq> [] \<or> (err = None \<and> main_all_data data_dir \<noteq> [])"
  shows "\<exists>df_all groups.
     main_df_all (main_all_data data_dir) = Inr df_all \<and>
     groupby df_all ''query_purpose'' = Inr groups \<and>
     main_export_groups (main_col_order df_all) (main_other_cols df_all) groups = (written, err)"
  using assms
  by (auto simp: main_def Let_def CREATE_SEPARATE_CSV_FILES_def split: if_splits sum.splits)


lemma set_main_col_order:
  "set (main_col_order df) = set priority_cols \<union> set remaining_base_cols \<union> set (columns df)"
  by (auto simp: main_col_order_def main_other_cols_def)

lemma main_other_cols_iff:
  "c \<in> set (main_other_cols df) \<longleftrightarrow>
     c \<in> set (columns df) \<and> c \<notin> set priority_cols \<and> c \<notin> set remaining_base_cols"
  by (auto simp: main_other_cols_def)

text \<open>
  C6. In per-category mode (the mode main runs in), take any table written, under its
  group key \<open>purpose\<close>. A tag column (a column of the frame of all rows that is
  neither a priority column nor a base column) is absent from the table exactly when it is
  empty (NaN or the empty string) in every row of the frame whose \<open>query_purpose\<close> is
  that key; so a column dropped from one table stays in every other table that has a
  non-empty value in it. Priority and base columns (provenance, geometry and id among
  them) are in every table. The rows of the table are the rows of the group.
\<close>

theorem main_prunes_empty_tag_columns_per_table:
  assumes "main_df_all (main_all_data data_dir) = Inr df_all"
    and "(purpose, table) \<in> set (fst (main data_dir))"
  shows
    "(\<forall>c \<in> set (main_other_cols df_all).
        c \<notin> set (columns table) \<longleftrightarrow>
        (\<forall>r \<in> set (rows df_all).
           cell_at r ''query_purpose'' = purpose \<longrightarrow> is_empty_cell (cell_at r c))) \<and>
     (\<forall>c \<in> set (priority_cols @ remaining_base_cols). c \<in> set (columns table)) \<and>
     set (columns table) \<subseteq>
       set (priority_cols @ remaining_base_cols) \<union> set (main_other_cols df_all) \<and>
     set (rows table) =
       reindex (columns table) ` {r \<in> set (rows df_all). cell_at r ''query_purpose'' = purpose}"
proof -
  obtain written err where m: "main data_dir = (written, err)"
    by (cases "main data_dir")
  with assms(2) have mem: "(purpose, table) \<in> set written" by simp
  then have "written \<noteq> []" by auto
  with main_written [OF m] assms(1) obtain groups
    where grp: "groupby df_all ''query_purpose'' = Inr groups"
      and exp: "main_export_groups (main_col_order df_all) (main_other_cols df_all) groups =
        (written, err)"
    by auto
  from main_export_groups_written [OF exp mem] obtain g
    where g: "(purpose, g) \<in> set groups"
      and t: "main_export_group (main_col_order df_all) (main_other_cols df_all) g = Inr table"
    by blast
  from g groupby_Inr [OF grp]
  have rows_g: "rows g = filter (\<lambda>r. cell_at r ''query_purpose'' = purpose) (rows df_all)"
    by simp
  note cols = main_export_group_Inr(2) [OF t] and rws = main_export_group_Inr(3) [OF t]
  have in_cols: "c \<in> set (columns table) \<longleftrightarrow>
      c \<in> set (main_col_order df_all) \<and>
      \<not> (c \<in> set (main_other_cols df_all) \<and> (\<forall>r \<in> set (rows g). is_empty_cell (cell_at r c)))"
    for c
    unfolding cols by auto
  show ?thesis
  proof (intro conjI ballI)
    fix c assume "c \<in> set (main_other_cols df_all)"
    then show "c \<notin> set (columns table) \<longleftrightarrow>
        (\<forall>r \<in> set (rows df_all).
           cell_at r ''query_purpose'' = purpose \<longrightarrow> is_empty_cell (cell_at r c))"
      by (auto simp: in_cols rows_g set_main_col_order main_other_cols_iff)
  next
    fix c assume "c \<in> set (priority_cols @ remaining_base_cols)"
    then show "c \<in> set (columns table)"
      by (auto simp: in_cols set_main_col_order main_other_cols_iff)
  next
    show "set (columns table) \<subseteq>
        set (priority_cols @ remaining_base_cols) \<union> set (main_other_cols df_all)"
      by (auto simp: in_cols set_main_col_order main_other_cols_iff)
  next
    show "set (rows table) =
        reindex (columns table) ` {r \<in> set (rows df_all). cell_at r ''query_purpose'' = purpose}"
      unfolding rws rows_g by auto
  qed
qed

section \<open>Concrete runs of main\<close>

text \<open>
  A church with every priority tag, a bookshop with a name only, and a hall tagged
  religion=none that alone carries the key wheelchair.
\<close>

definition scenario_church :: element where
  "scenario_church =
     \<lparr>elem_type = Some ''node'', elem_id = Some 1, lat = Some 1, lon = Some 2, nodes = None,
      tags = Some [(''name'', ''Grace''), (''religion'', ''christian''),
        (''denomination'', ''baptist''), (''phone'', ''555''), (''email'', ''a@b''),
        (''contact:email'', ''c@d''), (''website'', ''w'')]\<rparr>"

definition scenario_bookshop :: element where
  "scenario_bookshop =
     \<lparr>elem_type = Some ''node'', elem_id = Some 2, lat = Some 3, lon = Some 4, nodes = None,
      tags = Some [(''name'', ''Pages''), (''shop'', ''books'')]\<rparr>"

definition scenario_hall :: element where
  "scenario_hall =
     \<lparr>elem_type = Some ''node'', elem_id = Some 3, lat = Some 5, lon = Some 6, nodes = None,
      tags = Some [(''name'', ''Hall''), (''religion'', ''none''), (''wheelchair'', ''yes'')]\<rparr>"

definition scenario_dir :: data_dir where
  "scenario_dir =
     [(''alameda'',
       [(''religion'', Inr \<lparr>elements = Some [scenario_church]\<rparr>),
        (''bookstores'', Inr \<lparr>elements = Some [scenario_bookshop]\<rparr>)])]"

definition scenario_bookstores_table :: dataframe where
  "scenario_bookstores_table =
     \<lparr>columns =
       [''name'', ''Collaborated'', ''query_county'', ''city'',
        ''query_purpose'', ''person_with_relationship'', ''org_contact'',
        ''org_contact_title'', ''phone'', ''email'', ''contact:email'',
        ''website'', ''latitude'', ''longitude'', ''osm_id'', ''osm_type'',
        ''shop''],
      rows =
        [[(''name'', Str ''Pages''), (''Collaborated'', Str []),
           (''query_county'', Str ''alameda''), (''city'', Str []),
           (''query_purpose'', Str ''bookstores''),
           (''person_with_relationship'', Str []),
           (''org_contact'', Str []), (''org_contact_title'', Str []),
           (''phone'', Null), (''email'', Null), (''contact:email'', Null),
           (''website'', Null), (''latitude'', Num 3),
           (''longitude'', Num 4), (''osm_id'', Num 2),
           (''osm_type'', Str ''node''), (''shop'', Str ''books'')]]\<rparr>"

definition scenario_religion_table :: dataframe where
  "scenario_religion_table =
     \<lparr>columns =
       [''name'', ''Collaborated'', ''query_county'', ''city'',
        ''query_purpose'', ''person_with_relationship'', ''org_contact'',
        ''org_contact_title'', ''phone'', ''email'', ''contact:email'',
        ''website'', ''latitude'', ''longitude'', ''osm_id'', ''osm_type'',
        ''denomination'', ''religion''],
      rows =
        [[(''name'', Str ''Grace''), (''Collaborated'', Str []),
           (''query_county'', Str ''alameda''), (''city'', Str []),
           (''query_purpose'', Str ''religion''),
           (''person_with_relationship'', Str []),
           (''org_contact'', Str []), (''org_contact_title'', Str []),
           (''phone'', Str ''555''), (''email'', Str ''a@b''),
           (''contact:email'', Str ''c@d''), (''website'', Str ''w''),
           (''latitude'', Num 1), (''longitude'', Num 2),
           (''osm_id'', Num 1), (''osm_type'', Str ''node''),
           (''denomination'', Str ''baptist''),
           (''religion'', Str ''christian'')]]\<rparr>"

definition scenario_df_all :: dataframe where
  "scenario_df_all =
     \<lparr>columns =
        [''latitude'', ''longitude'', ''query_purpose'', ''query_county'',
         ''osm_id'', ''osm_type'', ''name'', ''shop'', ''religion'',
         ''denomination'', ''phone'', ''email'', ''contact:email'',
         ''website'', ''Collaborated'', ''city'',
         ''person_with_relationship'', ''org_contact'',
         ''org_contact_title''],
      rows =
          [[(''latitude'', Num 3), (''longitude'', Num 4),
            (''query_purpose'', Str ''bookstores''),
            (''query_county'', Str ''alameda''), (''osm_id'', Num 2),
            (''osm_type'', Str ''node''), (''name'', Str ''Pages''),
            (''shop'', Str ''books''), (''religion'', Null),
            (''denomination'', Null), (''phone'', Null), (''email'', Null),
            (''contact:email'', Null), (''website'', Null),
            (''Collaborated'', Str []), (''city'', Str []),
            (''person_with_relationship'', Str []),
            (''org_contact'', Str []), (''org_contact_title'', Str [])],
           [(''latitude'', Num 1), (''longitude'', Num 2),
            (''query_purpose'', Str ''religion''),
            (''query_county'', Str ''alameda''), (''osm_id'', Num 1),
            (''osm_type'', Str ''node''), (''name'', Str ''Grace''),
            (''shop'', Null), (''religion'', Str ''christian''),
            (''denomination'', Str ''baptist''), (''phone'', Str ''555''),
            (''email'', Str ''a@b''), (''contact:email'', Str ''c@d''),
            (''website'', Str ''w''), (''Collaborated'', Str []),
            (''city'', Str []), (''person_with_relationship'', Str []),
            (''org_contact'', Str []), (''org_contact_title'', Str [])]]\<rparr>"

lemma scenario_main:
  "main scenario_dir =
     ([(Str ''bookstores'', scenario_bookstores_table),
       (Str ''religion'', scenario_religion_table)], None)"
  by code_simp

lemma scenario_main_df_all:
  "main_df_all (main_all_data scenario_dir) = Inr scenario_df_all"
  by code_simp

theorem main_prunes_empty_tag_columns_per_table_witness:
  "fst (main scenario_dir) =
     [(Str ''bookstores'', scenario_bookstores_table),
      (Str ''religion'', scenario_religion_table)] \<and>
   ''denomination'' \<notin> set (columns scenario_bookstores_table) \<and>
   ''denomination'' \<in> set (columns scenario_religion_table) \<and>
   ''phone'' \<in> set (columns scenario_bookstores_table)"
proof -
  have den: "''denomination'' \<in> set (main_other_cols scenario_df_all)"
    by (simp add: main_other_cols_def scenario_df_all_def priority_cols_def
        remaining_base_cols_def)
  have pho: "''phone'' \<in> set (priority_cols @ remaining_base_cols)"
    by (simp add: priority_cols_def)
  have books: "(Str ''bookstores'', scenario_bookstores_table) \<in> set (fst (main scenario_dir))"
    and rel: "(Str ''religion'', scenario_religion_table) \<in> set (fst (main scenario_dir))"
    by (simp_all add: scenario_main)
  note b = main_prunes_empty_tag_columns_per_table [OF scenario_main_df_all books]
  note r = main_prunes_empty_tag_columns_per_table [OF scenario_main_df_all rel]
  have "\<forall>r \<in> set (rows scenario_df_all).
      cell_at r ''query_purpose'' = Str ''bookstores'' \<longrightarrow> is_empty_cell (cell_at r ''denomination'')"
    by (simp add: scenario_df_all_def cell_at_def is_empty_cell_def)
  with b [THEN conjunct1, THEN bspec, OF den]
  have 1: "''denomination'' \<notin> set (columns scenario_bookstores_table)"
    by (rule iffD2)
  have "\<not> (\<forall>r \<in> set (rows scenario_df_all).
      cell_at r ''query_purpose'' = Str ''religion'' \<longrightarrow> is_empty_cell (cell_at r ''denomination''))"
    by (simp add: scenario_df_all_def cell_at_def is_empty_cell_def)
  with r [THEN conjunct1, THEN bspec, OF den]
  have 2: "''denomination'' \<in> set (columns scenario_religion_table)"
    by blast
  from b [THEN conjunct2, THEN conjunct1, THEN bspec, OF pho]
  have 3: "''phone'' \<in> set (columns scenario_bookstores_table)" .
  from 1 2 3 show ?thesis by (simp add: scenario_main)
qed

definition scenario_dir_no_religion :: data_dir where
  "scenario_dir_no_religion =
     [(''alameda'', [(''bookstores'', Inr \<lparr>elements = Some [scenario_bookshop]\<rparr>)])]"

text \<open>
  C4. The filter reads the religion column with \<^verbatim>\<open>df_all['religion']\<close> and does not
  test that the column exists. A corpus in which no collected row has a religion tag has
  no such column: main raises KeyError and writes no table, so the rows that the
  filter should retain are not written.
\<close>

theorem main_raises_without_religion_column:
  "should_include_element scenario_bookshop Map.empty \<and>
   length (main_all_data scenario_dir_no_religion) = 1 \<and>
   main scenario_dir_no_religion = ([], Some (KeyError ''religion''))"
  by code_simp

definition scenario_dir_no_contact_email :: data_dir where
  "scenario_dir_no_contact_email =
     [(''alameda'',
       [(''religion'',
         Inr \<lparr>elements = Some
           [\<lparr>elem_type = Some ''node'', elem_id = Some 1, lat = Some 1, lon = Some 2,
             nodes = None,
             tags = Some [(''name'', ''Grace''), (''religion'', ''christian''),
               (''phone'', ''555''), (''email'', ''a@b''), (''website'', ''w'')]\<rparr>]\<rparr>)])]"

text \<open>
  C5. The column order is applied with \<^verbatim>\<open>group_df[col_order]\<close>, and \<open>col_order\<close>
  always lists the priority labels. When one of the priority tag keys (here
  contact:email) occurs in no collected row, the selection raises KeyError and main
  writes no table.
\<close>

theorem main_raises_without_priority_column:
  "length (main_all_data scenario_dir_no_contact_email) = 1 \<and>
   main scenario_dir_no_contact_email = ([], Some (KeyError ''contact:email''))"
  by code_simp

section \<open>Tag preservation\<close>

lemma set_concat_map_mem:
  "x \<in> set xs \<Longrightarrow> r \<in> set (f x) \<Longrightarrow> r \<in> set (concat (map f xs))"
  by auto

lemma main_all_data_mem:
  assumes "(county, files) \<in> set data_dir" and "county \<in> set (map fst COUNTIES)"
    and "(purpose, loaded) \<in> set files" and "purpose \<in> set (map fst QUERIES)"
    and "r \<in> set (process_json_file loaded purpose county)"
  shows "r \<in> set (main_all_data data_dir)"
proof -
  have f: "(purpose, loaded) \<in> set (sort_key (\<lambda>(stem, loaded). stem @ ''.json'') files)"
    using assms(3) by (simp only: set_sort)
  have d: "(county, files) \<in> set (sort_key fst data_dir)"
    using assms(1) by (simp only: set_sort)
  show ?thesis
    unfolding main_all_data_def
  proof (rule set_concat_map_mem [OF d], simp only: prod.case assms(2) not_True_eq_False if_False not_not)
    show "r \<in> set (concat (map (\<lambda>(query_purpose, loaded).
             if query_purpose \<notin> set (map fst QUERIES) then []
             else process_json_file loaded query_purpose county)
           (sort_key (\<lambda>(stem, loaded). stem @ ''.json'') files)))"
      by (rule set_concat_map_mem [OF f])
         (simp only: prod.case assms(4) assms(5) not_True_eq_False if_False not_not)
  qed
qed

lemma process_json_file_mem:
  assumes "elements doc = Some els" and "create_node_lookup els = Inr nl"
    and "e \<in> set els" and "should_include_element e nl"
  shows "extract_element_data e nl purpose county \<in> set (process_json_file (Inr doc) purpose county)"
  using assms by (simp add: process_json_file_def)

lemma map_of_extract_element_data:
  assumes "distinct (map fst (get_tags e))"
  shows "map_of (extract_element_data e nl purpose county) k =
     (case map_of (get_tags e) k of
        Some v \<Rightarrow> Some (Str v)
      | None \<Rightarrow>
          map_of [(''latitude'', num_cell (fst (get_element_coordinates e nl))),
                  (''longitude'', num_cell (snd (get_element_coordinates e nl))),
                  (''query_purpose'', Str purpose),
                  (''query_county'', Str county),
                  (''osm_id'', num_cell (map_option of_int (elem_id e))),
                  (''osm_type'', str_cell (elem_type e))] k)"
  unfolding extract_element_data_unfold map_of_add_tags [OF assms]
  by (simp split: option.splits)

lemma keys_extract_element_data:
  assumes "distinct (map fst (get_tags e))"
  shows "fst ` set (extract_element_data e nl purpose county) =
     {''latitude'', ''longitude'', ''query_purpose'', ''query_county'', ''osm_id'', ''osm_type''} \<union>
     fst ` set (get_tags e)"
proof -
  have "k \<in> fst ` set (extract_element_data e nl purpose county) \<longleftrightarrow>
      k \<in> {''latitude'', ''longitude'', ''query_purpose'', ''query_county'', ''osm_id'', ''osm_type''} \<union>
        fst ` set (get_tags e)" for k
  proof -
    have "k \<in> fst ` set (extract_element_data e nl purpose county) \<longleftrightarrow>
        map_of (extract_element_data e nl purpose county) k \<noteq> None"
      by (simp add: map_of_eq_None_iff)
    also have "\<dots> \<longleftrightarrow> k \<in> {''latitude'', ''longitude'', ''query_purpose'', ''query_county'',
        ''osm_id'', ''osm_type''} \<union> fst ` set (get_tags e)"
    proof (cases "map_of (get_tags e) k")
      case None
      then have "k \<notin> fst ` set (get_tags e)" by (simp add: map_of_eq_None_iff)
      with None show ?thesis
        unfolding map_of_extract_element_data [OF assms] by simp
    next
      case (Some v)
      then have "k \<in> fst ` set (get_tags e)"
        by (auto dest: map_of_SomeD intro: rev_image_eqI)
      with Some show ?thesis
        unfolding map_of_extract_element_data [OF assms] by simp
    qed
    finally show ?thesis .
  qed
  then show ?thesis by (intro set_eqI)
qed


lemma cell_at_extract_religion:
  assumes "distinct (map fst (get_tags e))" and "(''religion'', v) \<notin> set (get_tags e)"
  shows "cell_at (extract_element_data e nl purpose county) ''religion'' \<noteq> Str v"
proof (cases "map_of (get_tags e) ''religion''")
  case None
  then show ?thesis
    by (simp add: cell_at_def map_of_extract_element_data [OF assms(1)])
next
  case (Some w)
  then have "(''religion'', w) \<in> set (get_tags e)" by (rule map_of_SomeD)
  with assms(2) have "w \<noteq> v" by auto
  with Some show ?thesis
    by (simp add: cell_at_def map_of_extract_element_data [OF assms(1)])
qed

lemma cell_at_extract_query_purpose:
  assumes "distinct (map fst (get_tags e))"
  shows "cell_at (extract_element_data e nl purpose county) ''query_purpose'' \<noteq> Null"
  by (cases "map_of (get_tags e) ''query_purpose''")
     (simp_all add: cell_at_def map_of_extract_element_data [OF assms])

lemma cell_at_missing_key:
  "c \<notin> fst ` set r \<Longrightarrow> cell_at r c = Null"
  by (simp add: cell_at_def map_of_eq_None_iff [THEN iffD2])

text \<open>
  C3, as amended. Suppose main ends without an exception. Take an element that
  \<open>should_include_element\<close> accepts, in a document of a known county and query, whose
  religion tag is neither no nor none. Then the table written under the row's
  \<open>query_purpose\<close> value contains a row for it such that: every tag of the element with a
  non-empty value, whose key is not the label of one of the five blank columns, is a column
  of the table and the row holds the tag's value there; under every other column of the
  table, the blank ones apart, the row holds what the element's row dict holds, which is
  null for a tag key the element lacks.
\<close>

theorem main_preserves_tags_of_surviving_records:
  assumes run: "main data_dir = (written, None)"
    and dir: "(county, files) \<in> set data_dir" "county \<in> set (map fst COUNTIES)"
    and fil: "(purpose, Inr doc) \<in> set files" "purpose \<in> set (map fst QUERIES)"
    and els: "elements doc = Some els" "create_node_lookup els = Inr nl"
    and e: "e \<in> set els" "should_include_element e nl" "distinct (map fst (get_tags e))"
    and rel: "(''religion'', ''no'') \<notin> set (get_tags e)"
      "(''religion'', ''none'') \<notin> set (get_tags e)"
  shows "\<exists>table r.
     (cell_at (extract_element_data e nl purpose county) ''query_purpose'', table) \<in> set written \<and>
     r \<in> set (rows table) \<and>
     (\<forall>k v. (k, v) \<in> set (get_tags e) \<and> k \<notin> set blank_cols \<and> v \<noteq> [] \<longrightarrow>
        k \<in> set (columns table) \<and> cell_at r k = Str v) \<and>
     (\<forall>c \<in> set (columns table). c \<notin> set blank_cols \<longrightarrow>
        cell_at r c = cell_at (extract_element_data e nl purpose county) c) \<and>
     (\<forall>c \<in> set (columns table). c \<notin> set blank_cols \<and> c \<notin> fst ` set (get_tags e) \<and>
        c \<notin> {''latitude'', ''longitude'', ''query_purpose'', ''query_county'', ''osm_id'',
              ''osm_type''} \<longrightarrow>
        cell_at r c = Null)"
proof -
  let ?src = "extract_element_data e nl purpose county"
  let ?all = "main_all_data data_dir"
  let ?cols0 = "columns (DataFrame ?all)"
  let ?ok = "\<lambda>r. cell_at r ''religion'' \<noteq> Str ''no'' \<and> cell_at r ''religion'' \<noteq> Str ''none''"
  have r0: "?src \<in> set ?all"
    by (rule main_all_data_mem [OF dir fil process_json_file_mem [OF els e(1,2)]])
  then have "?all \<noteq> []" by auto
  with main_written [OF run] obtain df_all groups
    where df: "main_df_all ?all = Inr df_all"
      and grp: "groupby df_all ''query_purpose'' = Inr groups"
      and exp: "main_export_groups (main_col_order df_all) (main_other_cols df_all) groups =
        (written, None)"
    by auto
  note cols_df = main_df_all_Inr(2) [OF df] and rows_df = main_df_all_Inr(3) [OF df]
  have keys0: "fst ` set ?src \<subseteq> set ?cols0"
    using r0 unfolding columns_DataFrame by blast
  have qp0: "''query_purpose'' \<in> set ?cols0"
    using keys0 unfolding keys_extract_element_data [OF e(3)] by simp
  have ok: "?ok ?src"
    using cell_at_extract_religion [OF e(3) rel(1)] cell_at_extract_religion [OF e(3) rel(2)]
    by simp
  let ?mid = "blank_out (reindex ?cols0 ?src)"
  have r2: "?mid \<in> set (rows df_all)"
    unfolding rows_df using r0 ok by auto
  have cell2: "cell_at ?mid c =
      (if c \<in> set blank_cols then Str [] else if c \<in> set ?cols0 then cell_at ?src c else Null)" for c
    by (simp add: cell_at_blank_out cell_at_reindex)
  have qp_blank: "''query_purpose'' \<notin> set blank_cols"
    by (simp add: blank_cols_def)
  let ?key = "cell_at ?src ''query_purpose''"
  have key2: "cell_at ?mid ''query_purpose'' = ?key"
    by (simp add: cell2 qp_blank qp0)
  have key_nn: "?key \<noteq> Null"
    by (rule cell_at_extract_query_purpose [OF e(3)])
  let ?g = "df_all\<lparr>rows := filter (\<lambda>r. cell_at r ''query_purpose'' = ?key) (rows df_all)\<rparr>"
  have g: "(?key, ?g) \<in> set groups"
    unfolding groupby_Inr [OF grp] using key_nn r2 key2 by (auto intro: rev_image_eqI)
  have r2g: "?mid \<in> set (rows ?g)"
    using r2 key2 by simp
  from main_export_groups_complete [OF exp g] obtain table
    where t: "main_export_group (main_col_order df_all) (main_other_cols df_all) ?g = Inr table"
      and w: "(?key, table) \<in> set written"
    by blast
  note sub = main_export_group_Inr(1) [OF t] and colt = main_export_group_Inr(2) [OF t]
    and rowt = main_export_group_Inr(3) [OF t]
  let ?out = "reindex (columns table) ?mid"
  have r: "?out \<in> set (rows table)"
    unfolding rowt using r2g by (rule imageI)
  have in_colt: "c \<in> set (columns table) \<longleftrightarrow>
      c \<in> set (main_col_order df_all) \<and>
      \<not> (c \<in> set (main_other_cols df_all) \<and> (\<forall>r \<in> set (rows ?g). is_empty_cell (cell_at r c)))"
    for c
    unfolding colt by auto
  have colt_sub: "c \<in> set ?cols0 \<or> c \<in> set blank_cols" if "c \<in> set (columns table)" for c
  proof -
    from that have "c \<in> set (main_col_order df_all)" by (simp add: in_colt)
    with sub have "c \<in> set (columns ?g)" by blast
    then show ?thesis by (simp add: cols_df)
  qed
  have cellr: "cell_at ?out c = cell_at ?src c"
    if "c \<in> set (columns table)" "c \<notin> set blank_cols" for c
    using that colt_sub [OF that(1)] by (simp add: cell_at_reindex cell2)
  have tag: "k \<in> set (columns table) \<and> cell_at ?out k = Str v"
    if kv: "(k, v) \<in> set (get_tags e)" and nb: "k \<notin> set blank_cols" and ne: "v \<noteq> []" for k v
  proof -
    have c0: "cell_at ?src k = Str v"
      by (rule cell_at_extract_tag [OF e(3) kv])
    have "k \<in> fst ` set ?src"
      unfolding keys_extract_element_data [OF e(3)] using kv by (auto intro: rev_image_eqI)
    with keys0 have k0: "k \<in> set ?cols0" by blast
    then have kord: "k \<in> set (main_col_order df_all)"
      by (simp add: set_main_col_order cols_df)
    have "cell_at ?mid k = Str v"
      by (simp add: cell2 nb k0 c0)
    with ne have "\<not> is_empty_cell (cell_at ?mid k)"
      by (simp add: is_empty_cell_def)
    with r2g have "\<not> (\<forall>r \<in> set (rows ?g). is_empty_cell (cell_at r k))"
      by blast
    with kord have kt: "k \<in> set (columns table)"
      by (simp add: in_colt)
    from cellr [OF kt nb] c0 kt show ?thesis by simp
  qed
  have null: "cell_at ?out c = Null"
    if "c \<in> set (columns table)" "c \<notin> set blank_cols" "c \<notin> fst ` set (get_tags e)"
      "c \<notin> {''latitude'', ''longitude'', ''query_purpose'', ''query_county'', ''osm_id'',
          ''osm_type''}" for c
  proof -
    from that(3,4) have "c \<notin> fst ` set ?src"
      unfolding keys_extract_element_data [OF e(3)] by simp
    then have "cell_at ?src c = Null" by (rule cell_at_missing_key)
    with cellr [OF that(1,2)] show ?thesis by simp
  qed
  show ?thesis
  proof (rule exI [of _ table], rule exI [of _ ?out], intro conjI allI ballI impI)
    show "(?key, table) \<in> set written" by (rule w)
    show "?out \<in> set (rows table)" by (rule r)
  next
    fix k v
    assume a: "(k, v) \<in> set (get_tags e) \<and> k \<notin> set blank_cols \<and> v \<noteq> []"
    then have "(k, v) \<in> set (get_tags e)" "k \<notin> set blank_cols" "v \<noteq> []" by simp_all
    then show "k \<in> set (columns table)" by (rule tag [THEN conjunct1])
  next
    fix k v
    assume a: "(k, v) \<in> set (get_tags e) \<and> k \<notin> set blank_cols \<and> v \<noteq> []"
    then have "(k, v) \<in> set (get_tags e)" "k \<notin> set blank_cols" "v \<noteq> []" by simp_all
    then show "cell_at ?out k = Str v" by (rule tag [THEN conjunct2])
  next
    fix c assume "c \<in> set (columns table)" "c \<notin> set blank_cols"
    then show "cell_at ?out c = cell_at ?src c" by (rule cellr)
  next
    fix c
    assume "c \<in> set (columns table)"
      and "c \<notin> set blank_cols \<and> c \<notin> fst ` set (get_tags e) \<and>
        c \<notin> {''latitude'', ''longitude'', ''query_purpose'', ''query_county'', ''osm_id'',
            ''osm_type''}"
    then show "cell_at ?out c = Null" by (intro null) simp_all
  qed
qed


definition scenario_dir_none :: data_dir where
  "scenario_dir_none =
     [(''alameda'',
       [(''religion'', Inr \<lparr>elements = Some [scenario_church, scenario_hall]\<rparr>)])]"

lemma scenario_church_row:
  "cell_at (extract_element_data scenario_church [1 \<mapsto> (1, 2)] ''religion'' ''alameda'')
     ''query_purpose'' = Str ''religion''"
  by code_simp

theorem main_preserves_tags_of_surviving_records_witness:
  "\<exists>table r.
     (Str ''religion'', table) \<in> set (fst (main scenario_dir)) \<and> r \<in> set (rows table) \<and>
     ''denomination'' \<in> set (columns table) \<and> cell_at r ''denomination'' = Str ''baptist''"
proof -
  have 1: "(''alameda'',
        [(''religion'', Inr \<lparr>elements = Some [scenario_church]\<rparr>),
         (''bookstores'', Inr \<lparr>elements = Some [scenario_bookshop]\<rparr>)]) \<in> set scenario_dir"
    by (simp add: scenario_dir_def)
  have 2: "''alameda'' \<in> set (map fst COUNTIES)"
    by (simp add: COUNTIES_def)
  have 3: "(''religion'', Inr \<lparr>elements = Some [scenario_church]\<rparr>) \<in>
      set [(''religion'', Inr \<lparr>elements = Some [scenario_church]\<rparr>),
           (''bookstores'', Inr \<lparr>elements = Some [scenario_bookshop]\<rparr>)]"
    by simp
  have 4: "''religion'' \<in> set (map fst QUERIES)"
    by (simp add: QUERIES_def)
  have 5: "elements \<lparr>elements = Some [scenario_church]\<rparr> = Some [scenario_church]"
    by simp
  have 6: "create_node_lookup [scenario_church] = Inr [1 \<mapsto> (1, 2)]"
    by (simp add: create_node_lookup_def scenario_church_def)
  have 7: "scenario_church \<in> set [scenario_church]"
    by simp
  have 8: "should_include_element scenario_church [1 \<mapsto> (1, 2)]"
    by (simp add: should_include_element_def get_tags_def scenario_church_def meaningful_keys_def)
  have 9: "distinct (map fst (get_tags scenario_church))"
    by (simp add: get_tags_def scenario_church_def)
  have 10: "(''religion'', ''no'') \<notin> set (get_tags scenario_church)"
    and 11: "(''religion'', ''none'') \<notin> set (get_tags scenario_church)"
    by (simp_all add: get_tags_def scenario_church_def)
  from main_preserves_tags_of_surviving_records [OF scenario_main 1 2 3 4 5 6 7 8 9 10 11]
  obtain table r
    where w: "(Str ''religion'', table) \<in>
        set [(Str ''bookstores'', scenario_bookstores_table),
             (Str ''religion'', scenario_religion_table)]"
      and r: "r \<in> set (rows table)"
      and t: "\<forall>k v. (k, v) \<in> set (get_tags scenario_church) \<and> k \<notin> set blank_cols \<and> v \<noteq> [] \<longrightarrow>
          k \<in> set (columns table) \<and> cell_at r k = Str v"
    unfolding scenario_church_row by blast
  have "(''denomination'', ''baptist'') \<in> set (get_tags scenario_church) \<and>
      ''denomination'' \<notin> set blank_cols \<and> ''baptist'' \<noteq> []"
    by (simp add: get_tags_def scenario_church_def blank_cols_def)
  with t have "''denomination'' \<in> set (columns table) \<and> cell_at r ''denomination'' = Str ''baptist''"
    by blast
  with w r show ?thesis
    unfolding scenario_main fst_conv by blast
qed

text \<open>
  The claim as stated fails: the hall is accepted by \<open>should_include_element\<close> and
  its row is collected, it alone carries the key wheelchair, its religion is none, and
  the only table written has no column wheelchair.
\<close>

theorem main_drops_tag_of_filtered_record:
  "should_include_element scenario_hall [1 \<mapsto> (1, 2), 3 \<mapsto> (5, 6)] \<and>
   (''wheelchair'', ''yes'') \<in> set (get_tags scenario_hall) \<and>
   extract_element_data scenario_hall [1 \<mapsto> (1, 2), 3 \<mapsto> (5, 6)] ''religion'' ''alameda''
     \<in> set (main_all_data scenario_dir_none) \<and>
   main scenario_dir_none = ([(Str ''religion'', scenario_religion_table)], None) \<and>
   ''wheelchair'' \<notin> set (columns scenario_religion_table)"
  by code_simp

section \<open>Column order and the religion filter on the tables written\<close>

lemma insort_key_append_left:
  "\<forall>y \<in> set ys. f y < f a \<Longrightarrow> insort_key f a (ys @ zs) = ys @ insort_key f a zs"
  by (induction ys) auto

lemma insort_key_append_right:
  "\<forall>z \<in> set zs. f a \<le> f z \<Longrightarrow> insort_key f a (ys @ zs) = insort_key f a ys @ zs"
  by (induction ys) (auto simp: insort_is_Cons)

lemma insort_key_flag:
  "\<forall>z \<in> set zs. P z = P a \<Longrightarrow>
   insort_key (\<lambda>x. (P x, x)) a zs = insort_key (\<lambda>x. x) a zs"
  by (induction zs) auto

lemma sort_key_flag:
  "sort_key (\<lambda>x. (P x, x)) xs =
     sort_key (\<lambda>x. x) (filter (\<lambda>x. \<not> P x) xs) @ sort_key (\<lambda>x. x) (filter P xs)"
proof (induction xs)
  case Nil
  then show ?case by simp
next
  case (Cons a xs)
  let ?f = "\<lambda>x. (P x, x)"
  let ?lo = "sort_key (\<lambda>x. x) (filter (\<lambda>x. \<not> P x) xs)"
  let ?hi = "sort_key (\<lambda>x. x) (filter P xs)"
  show ?case
  proof (cases "P a")
    case True
    then have "insort_key ?f a (?lo @ ?hi) = ?lo @ insort_key ?f a ?hi"
      by (intro insort_key_append_left) auto
    also have "insort_key ?f a ?hi = insort_key (\<lambda>x. x) a ?hi"
      using True by (intro insort_key_flag) auto
    finally show ?thesis using True Cons.IH by simp
  next
    case False
    then have "insort_key ?f a (?lo @ ?hi) = insort_key ?f a ?lo @ ?hi"
      by (intro insort_key_append_right) auto
    also have "insort_key ?f a ?lo = insort_key (\<lambda>x. x) a ?lo"
      using False by (intro insort_key_flag) auto
    finally show ?thesis using False Cons.IH by simp
  qed
qed

lemma main_table:
  assumes "main_df_all (main_all_data data_dir) = Inr df_all"
    and "(purpose, table) \<in> set (fst (main data_dir))"
  shows "columns table =
      filter (\<lambda>c. \<not> (c \<in> set (main_other_cols df_all) \<and>
          (\<forall>r \<in> set (rows df_all).
             cell_at r ''query_purpose'' = purpose \<longrightarrow> is_empty_cell (cell_at r c))))
        (main_col_order df_all)"
    and "set (rows table) =
      reindex (columns table) ` {r \<in> set (rows df_all). cell_at r ''query_purpose'' = purpose}"
proof -
  obtain written err where m: "main data_dir = (written, err)"
    by (cases "main data_dir")
  with assms(2) have mem: "(purpose, table) \<in> set written" by simp
  then have "written \<noteq> []" by auto
  with main_written [OF m] assms(1) obtain groups
    where grp: "groupby df_all ''query_purpose'' = Inr groups"
      and exp: "main_export_groups (main_col_order df_all) (main_other_cols df_all) groups =
        (written, err)"
    by auto
  from main_export_groups_written [OF exp mem] obtain g
    where g: "(purpose, g) \<in> set groups"
      and t: "main_export_group (main_col_order df_all) (main_other_cols df_all) g = Inr table"
    by blast
  from g groupby_Inr [OF grp]
  have rows_g: "rows g = filter (\<lambda>r. cell_at r ''query_purpose'' = purpose) (rows df_all)"
    by simp
  have set_g: "set (rows g) = {r \<in> set (rows df_all). cell_at r ''query_purpose'' = purpose}"
    unfolding rows_g by auto
  show "columns table =
      filter (\<lambda>c. \<not> (c \<in> set (main_other_cols df_all) \<and>
          (\<forall>r \<in> set (rows df_all).
             cell_at r ''query_purpose'' = purpose \<longrightarrow> is_empty_cell (cell_at r c))))
        (main_col_order df_all)"
    unfolding main_export_group_Inr(2) [OF t] by (rule filter_cong) (auto simp: set_g)
  show "set (rows table) =
      reindex (columns table) ` {r \<in> set (rows df_all). cell_at r ''query_purpose'' = purpose}"
    unfolding main_export_group_Inr(3) [OF t] set_g ..
qed

text \<open>
  Every table main writes has the columns: the priority columns, the base columns,
  then the tag columns that are non-empty in the table's group, those not starting with
  \<open>addr:\<close> first and those starting with it last, each part in ascending
  lexicographic order of the labels.
\<close>

theorem main_table_column_order:
  assumes "main_df_all (main_all_data data_dir) = Inr df_all"
    and "(purpose, table) \<in> set (fst (main data_dir))"
  shows "columns table =
     priority_cols @ remaining_base_cols @
     sort_key (\<lambda>c. c)
       (filter (\<lambda>c. \<not> startswith c ''addr:'' \<and>
            (\<exists>r \<in> set (rows df_all).
               cell_at r ''query_purpose'' = purpose \<and> \<not> is_empty_cell (cell_at r c)))
          (main_other_cols df_all)) @
     sort_key (\<lambda>c. c)
       (filter (\<lambda>c. startswith c ''addr:'' \<and>
            (\<exists>r \<in> set (rows df_all).
               cell_at r ''query_purpose'' = purpose \<and> \<not> is_empty_cell (cell_at r c)))
          (main_other_cols df_all))"
proof -
  let ?empty = "\<lambda>c. \<forall>r \<in> set (rows df_all).
      cell_at r ''query_purpose'' = purpose \<longrightarrow> is_empty_cell (cell_at r c)"
  let ?kept = "\<lambda>c. \<exists>r \<in> set (rows df_all).
      cell_at r ''query_purpose'' = purpose \<and> \<not> is_empty_cell (cell_at r c)"
  let ?drop = "\<lambda>c. \<not> (c \<in> set (main_other_cols df_all) \<and> ?empty c)"
  have fixed: "filter ?drop (priority_cols @ remaining_base_cols) =
      priority_cols @ remaining_base_cols"
    by (rule filter_True) (auto simp: main_other_cols_iff)
  have tagf: "filter ?drop xs = filter ?kept xs" if "set xs \<subseteq> set (main_other_cols df_all)" for xs
    using that by (intro filter_cong) auto
  have "columns table = filter ?drop (main_col_order df_all)"
    by (rule main_table(1) [OF assms])
  also have "\<dots> = priority_cols @ remaining_base_cols @
      filter ?kept (sort_key (\<lambda>x. (startswith x ''addr:'', x)) (main_other_cols df_all))"
    using fixed tagf [of "sort_key (\<lambda>x. (startswith x ''addr:'', x)) (main_other_cols df_all)"]
    by (simp add: main_col_order_def)
  also have "filter ?kept (sort_key (\<lambda>x. (startswith x ''addr:'', x)) (main_other_cols df_all)) =
      sort_key (\<lambda>x. (startswith x ''addr:'', x)) (filter ?kept (main_other_cols df_all))"
    by (rule filter_sort)
  also have "\<dots> =
      sort_key (\<lambda>c. c) (filter (\<lambda>c. \<not> startswith c ''addr:'') (filter ?kept (main_other_cols df_all))) @
      sort_key (\<lambda>c. c) (filter (\<lambda>c. startswith c ''addr:'') (filter ?kept (main_other_cols df_all)))"
    by (rule sort_key_flag)
  finally show ?thesis by (simp add: conj_commute)
qed

text \<open>
  No row of a table main writes has \<open>no\<close> or \<open>none\<close> in its religion
  column, whatever the corpus.
\<close>

theorem main_tables_have_no_religion_no_none:
  assumes "(purpose, table) \<in> set (fst (main data_dir))" and "r \<in> set (rows table)"
  shows "cell_at r ''religion'' \<noteq> Str ''no'' \<and> cell_at r ''religion'' \<noteq> Str ''none''"
proof -
  obtain written err where m: "main data_dir = (written, err)"
    by (cases "main data_dir")
  with assms(1) have "written \<noteq> []" by auto
  with main_written [OF m] obtain df_all
    where df: "main_df_all (main_all_data data_dir) = Inr df_all"
    by auto
  let ?cols0 = "columns (DataFrame (main_all_data data_dir))"
  note rel = main_df_all_Inr(1) [OF df] and rows_df = main_df_all_Inr(3) [OF df]
  from main_table(2) [OF df assms(1)] assms(2) obtain mid
    where mid: "mid \<in> set (rows df_all)" and r: "r = reindex (columns table) mid"
    by auto
  from mid obtain src
    where src: "cell_at src ''religion'' \<noteq> Str ''no'' \<and> cell_at src ''religion'' \<noteq> Str ''none''"
      and m2: "mid = blank_out (reindex ?cols0 src)"
    unfolding rows_df by auto
  have "cell_at mid ''religion'' = cell_at src ''religion''"
    using rel by (simp add: m2 cell_at_blank_out cell_at_reindex blank_cols_def)
  with src show ?thesis
    by (simp add: r cell_at_reindex)
qed


definition scenario_dir_addr :: data_dir where
  "scenario_dir_addr =
     [(''alameda'',
       [(''religion'',
         Inr \<lparr>elements = Some
           [\<lparr>elem_type = Some ''node'', elem_id = Some 1, lat = Some 1, lon = Some 2,
             nodes = None,
             tags = Some [(''name'', ''Grace''), (''wheelchair'', ''yes''),
               (''addr:street'', ''Main''), (''religion'', ''christian''),
               (''addr:city'', ''Oakland''), (''Zoo'', ''no''), (''phone'', ''555''),
               (''email'', ''a@b''), (''contact:email'', ''c@d''), (''website'', ''w'')]\<rparr>]\<rparr>)])]"

theorem main_table_column_order_witness:
  "map fst (fst (main scenario_dir_addr)) = [Str ''religion''] \<and>
   columns (snd (hd (fst (main scenario_dir_addr)))) =
     [''name'', ''Collaborated'', ''query_county'', ''city'', ''query_purpose'',
      ''person_with_relationship'', ''org_contact'', ''org_contact_title'', ''phone'', ''email'',
      ''contact:email'', ''website'', ''latitude'', ''longitude'', ''osm_id'', ''osm_type'',
      ''Zoo'', ''religion'', ''wheelchair'', ''addr:city'', ''addr:street'']"
proof -
  let ?df = "projr (main_df_all (main_all_data scenario_dir_addr))"
  let ?t = "snd (hd (fst (main scenario_dir_addr)))"
  have df: "main_df_all (main_all_data scenario_dir_addr) = Inr ?df"
    by code_simp
  have t: "(Str ''religion'', ?t) \<in> set (fst (main scenario_dir_addr))"
    by code_simp
  have keys: "map fst (fst (main scenario_dir_addr)) = [Str ''religion'']"
    by code_simp
  have "priority_cols @ remaining_base_cols @
     sort_key (\<lambda>c. c)
       (filter (\<lambda>c. \<not> startswith c ''addr:'' \<and>
            (\<exists>r \<in> set (rows ?df).
               cell_at r ''query_purpose'' = Str ''religion'' \<and> \<not> is_empty_cell (cell_at r c)))
          (main_other_cols ?df)) @
     sort_key (\<lambda>c. c)
       (filter (\<lambda>c. startswith c ''addr:'' \<and>
            (\<exists>r \<in> set (rows ?df).
               cell_at r ''query_purpose'' = Str ''religion'' \<and> \<not> is_empty_cell (cell_at r c)))
          (main_other_cols ?df)) =
     [''name'', ''Collaborated'', ''query_county'', ''city'', ''query_purpose'',
      ''person_with_relationship'', ''org_contact'', ''org_contact_title'', ''phone'', ''email'',
      ''contact:email'', ''website'', ''latitude'', ''longitude'', ''osm_id'', ''osm_type'',
      ''Zoo'', ''religion'', ''wheelchair'', ''addr:city'', ''addr:street'']"
    by code_simp
  with main_table_column_order [OF df t] keys show ?thesis
    by (simp only: simp_thms)
qed

theorem main_tables_have_no_religion_no_none_witness:
  "cell_at (hd (rows scenario_religion_table)) ''religion'' \<noteq> Str ''no'' \<and>
   cell_at (hd (rows scenario_religion_table)) ''religion'' \<noteq> Str ''none''"
proof -
  have t: "(Str ''religion'', scenario_religion_table) \<in> set (fst (main scenario_dir))"
    by (simp add: scenario_main)
  have r: "hd (rows scenario_religion_table) \<in> set (rows scenario_religion_table)"
    by (simp add: scenario_religion_table_def)
  from t r show ?thesis by (rule main_tables_have_no_religion_no_none)
qed

end
